theory Spec2Isabelle
  imports Complex_Main "HOL-Library.AList" "HOL-Library.Log_Nat"
begin

section \<open>JavaScript values\<close>

text \<open>
  A JavaScript number is an IEEE double. The finite doubles are rationals, so a finite
  number is modelled by the rational it denotes; \<open>NaN\<close> and the two infinities are
  constructors of their own. \<open>Math.trunc\<close>, \<open>Math.floor\<close>, \<open>Math.min\<close>, \<open>Math.max\<close>
  and comparison are exact on doubles; sum, difference and product round their exact
  result to a double (section Double arithmetic). The sign of zero is not modelled: no
  code path below can tell \<open>-0\<close> from \<open>0\<close>.
\<close>

datatype jsnum = NaN | PosInf | NegInf | Fin rat

text \<open>
  A value as \<open>JSON.parse\<close> produces it, plus \<open>undefined\<close> (what a missing property
  reads as). An object is the list of its own properties.
\<close>

datatype jsval =
    JUndefined
  | JNull
  | JBool bool
  | JNum jsnum
  | JStr string
  | JArr "jsval list"
  | JObj "(string \<times> jsval) list"

text \<open>\<open>ToBoolean\<close>: what \<open>if (v)\<close>, \<open>!v\<close> and \<open>v || w\<close> test.\<close>

fun truthy :: "jsval \<Rightarrow> bool" where
  "truthy JUndefined = False"
| "truthy JNull = False"
| "truthy (JBool b) = b"
| "truthy (JNum n) = (n \<noteq> NaN \<and> n \<noteq> Fin 0)"
| "truthy (JStr s) = (s \<noteq> [])"
| "truthy (JArr xs) = True"
| "truthy (JObj kvs) = True"

text \<open>\<open>a || b\<close>\<close>

definition js_or :: "jsval \<Rightarrow> jsval \<Rightarrow> jsval" where
  "js_or a b = (if truthy a then a else b)"

text \<open>\<open>Array.isArray(v)\<close>\<close>

fun isArray :: "jsval \<Rightarrow> bool" where
  "isArray (JArr xs) = True"
| "isArray v = False"

text \<open>
  \<open>v?.k\<close> for the property names the pages read (\<open>prediction\<close>, \<open>predictions\<close>,
  \<open>numbers\<close>, \<open>tickets\<close>, \<open>fixed_numbers\<close>, \<open>is_premium\<close>, \<open>round\<close>,
  \<open>draw_date\<close>): none of them is a built-in property of a string, an array, a number
  or a boolean, so only an object can hold one. On \<open>null\<close> and \<open>undefined\<close> the
  optional chain gives \<open>undefined\<close>; the plain access \<open>v.k\<close> throws there, which the
  callers below write out with \<open>nullish\<close>.
\<close>

fun get_prop :: "jsval \<Rightarrow> string \<Rightarrow> jsval" where
  "get_prop (JObj kvs) k = (case map_of kvs k of None \<Rightarrow> JUndefined | Some v \<Rightarrow> v)"
| "get_prop v k = JUndefined"

fun nullish :: "jsval \<Rightarrow> bool" where
  "nullish JUndefined = True"
| "nullish JNull = True"
| "nullish v = False"

text \<open>\<open>a ?? b\<close>\<close>

definition js_coalesce :: "jsval \<Rightarrow> jsval \<Rightarrow> jsval" where
  "js_coalesce a b = (if nullish a then b else a)"

section \<open>Count clamping (clampInt)\<close>

text \<open>\<open>Number.isFinite(n)\<close>\<close>

fun isFinite :: "jsnum \<Rightarrow> bool" where
  "isFinite (Fin r) = True"
| "isFinite n = False"

text \<open>\<open>Math.trunc\<close>: rounds towards zero; \<open>NaN\<close> and the infinities are fixed points.\<close>

definition rat_trunc :: "rat \<Rightarrow> rat" where
  "rat_trunc r = (if 0 \<le> r then of_int \<lfloor>r\<rfloor> else of_int \<lceil>r\<rceil>)"

fun Math_trunc :: "jsnum \<Rightarrow> jsnum" where
  "Math_trunc (Fin r) = Fin (rat_trunc r)"
| "Math_trunc n = n"

text \<open>The order of the numbers other than \<open>NaN\<close>.\<close>

fun num_le :: "jsnum \<Rightarrow> jsnum \<Rightarrow> bool" where
  "num_le NegInf b = True"
| "num_le a PosInf = True"
| "num_le (Fin a) (Fin b) = (a \<le> b)"
| "num_le a b = False"

text \<open>\<open>Math.min\<close> and \<open>Math.max\<close> of two arguments: \<open>NaN\<close> if either is \<open>NaN\<close>.\<close>

definition Math_min :: "jsnum \<Rightarrow> jsnum \<Rightarrow> jsnum" where
  "Math_min a b = (if a = NaN \<or> b = NaN then NaN else if num_le a b then a else b)"

definition Math_max :: "jsnum \<Rightarrow> jsnum \<Rightarrow> jsnum" where
  "Math_max a b = (if a = NaN \<or> b = NaN then NaN else if num_le a b then b else a)"

text \<open>
  \<^verbatim>\<open>function clampInt(n, min, max) {
    if (!Number.isFinite(n)) return min;
    return Math.max(min, Math.min(max, Math.trunc(n)));
  }\<close>
  The same function stands in loto6-logic.js, loto7-logic.js and loto7-fortune.js.
\<close>

definition clampInt :: "jsnum \<Rightarrow> jsnum \<Rightarrow> jsnum \<Rightarrow> jsnum" where
  "clampInt n mn mx =
     (if \<not> isFinite n then mn else Math_max mn (Math_min mx (Math_trunc n)))"

section \<open>Double arithmetic\<close>

text \<open>
  A JavaScript number is an IEEE 754 binary64 value. \<open>Fin r\<close> carries the rational
  value \<open>r\<close> of a finite double; \<open>-0\<close> is identified with \<open>0\<close> (a \<open>Set\<close> does not tell
  them apart, nor does a comparison, and nothing below divides). The arithmetic
  operators compute the exact result and round it to the nearest double, a tie going to
  the even mantissa; \<open>fl\<close> is that rounding.

  \<open>pow2 e\<close> is \<open>2\<close> to the power \<open>e\<close>, and \<open>expo x\<close> the binary exponent of \<open>x \<noteq> 0\<close>:
  \<open>pow2 (expo x) \<le> \<bar>x\<bar> < pow2 (expo x + 1)\<close>. It is computed from the bit lengths of
  numerator and denominator.
\<close>

definition pow2 :: "int \<Rightarrow> rat" where
  "pow2 e = 2 powi e"

definition expo :: "rat \<Rightarrow> int" where
  "expo x =
     (let a = fst (quotient_of \<bar>x\<bar>); b = snd (quotient_of \<bar>x\<bar>); d = bitlen a - bitlen b
      in if pow2 d \<le> \<bar>x\<bar> then d else d - 1)"

text \<open>The integer nearest to \<open>q\<close>, the even one of the two when \<open>q\<close> lies half-way.\<close>

definition round_even :: "rat \<Rightarrow> int" where
  "round_even q =
     (let f = \<lfloor>q\<rfloor>; r = q - of_int f
      in if r < 1/2 then f else if 1/2 < r then f + 1 else if even f then f else f + 1)"

text \<open>
  Rounding to binary64: the mantissa has 53 bits, so the last place of \<open>x\<close> is
  \<open>pow2 (expo x - 52)\<close>, and \<open>pow2 (- 1074)\<close> for the subnormal numbers below
  \<open>pow2 (- 1022)\<close>; a result of magnitude \<open>pow2 1024\<close> or more is infinite.
\<close>

definition fl :: "rat \<Rightarrow> jsnum" where
  "fl x =
     (if x = 0 then Fin 0
      else
        (let e = max (expo x) (- 1022) - 52;
             y = of_int (round_even (x / pow2 e)) * pow2 e
         in if pow2 1024 \<le> \<bar>y\<bar> then (if 0 < x then PosInf else NegInf) else Fin y))"

text \<open>The rationals that are doubles: those \<open>fl\<close> leaves as they are.\<close>

definition is_double :: "rat \<Rightarrow> bool" where
  "is_double x = (fl x = Fin x)"

text \<open>
  \<open>-a\<close>, \<open>a + b\<close>, \<open>a - b\<close> and \<open>a * b\<close> on numbers. \<open>NaN\<close> is contagious, the sum of
  opposite infinities and the product of zero and an infinity are \<open>NaN\<close>.
\<close>

fun js_neg :: "jsnum \<Rightarrow> jsnum" where
  "js_neg (Fin x) = Fin (- x)"
| "js_neg PosInf = NegInf"
| "js_neg NegInf = PosInf"
| "js_neg NaN = NaN"

definition js_add :: "jsnum \<Rightarrow> jsnum \<Rightarrow> jsnum" where
  "js_add a b =
     (case (a, b) of
        (Fin x, Fin y) \<Rightarrow> fl (x + y)
      | (Fin x, _) \<Rightarrow> b
      | (_, Fin y) \<Rightarrow> a
      | _ \<Rightarrow> if a = b then a else NaN)"

definition js_sub :: "jsnum \<Rightarrow> jsnum \<Rightarrow> jsnum" where
  "js_sub a b = js_add a (js_neg b)"

fun js_positive :: "jsnum \<Rightarrow> bool" where
  "js_positive (Fin x) = (0 < x)"
| "js_positive PosInf = True"
| "js_positive n = False"

definition js_mul :: "jsnum \<Rightarrow> jsnum \<Rightarrow> jsnum" where
  "js_mul a b =
     (case (a, b) of
        (Fin x, Fin y) \<Rightarrow> fl (x * y)
      | _ \<Rightarrow> if a = NaN \<or> b = NaN \<or> a = Fin 0 \<or> b = Fin 0 then NaN
             else if js_positive a = js_positive b then PosInf else NegInf)"

text \<open>\<open>Math.floor\<close>: exact on a double; \<open>NaN\<close> and the infinities are fixed points.\<close>

fun Math_floor :: "jsnum \<Rightarrow> jsnum" where
  "Math_floor (Fin r) = Fin (of_int \<lfloor>r\<rfloor>)"
| "Math_floor n = n"

text \<open>\<open>a < b\<close> on numbers: false when either is \<open>NaN\<close>.\<close>

fun js_lt :: "jsnum \<Rightarrow> jsnum \<Rightarrow> bool" where
  "js_lt (Fin a) (Fin b) = (a < b)"
| "js_lt NaN b = False"
| "js_lt a NaN = False"
| "js_lt NegInf b = (b \<noteq> NegInf)"
| "js_lt a PosInf = (a \<noteq> PosInf)"
| "js_lt a b = False"

text \<open>The number that an integer literal or an integer of a JSON text denotes.\<close>

definition num :: "int \<Rightarrow> jsnum" where
  "num k = Fin (of_int k)"

section \<open>Numeric ticket generator (generateUniqueNumbersWithFixed)\<close>

text \<open>
  \<^verbatim>\<open>function randInt(min, max) {
    return Math.floor(Math.random() * (max - min + 1)) + min;
  }\<close>
  The first argument is the value \<open>Math.random()\<close> returned, a double in \<open>[0, 1)\<close>.
  Each of the four operations rounds: the product can round up to the next integer,
  and beyond \<open>2 ^ 53\<close> the sum \<open>... + min\<close> cannot give every integer.
\<close>

definition randInt :: "rat \<Rightarrow> jsnum \<Rightarrow> jsnum \<Rightarrow> jsnum" where
  "randInt u mn mx = js_add (Math_floor (js_mul (Fin u) (js_add (js_sub mx mn) (Fin 1)))) mn"

text \<open>
  A JavaScript \<open>Set\<close> of numbers: its elements in insertion order, each once
  (\<open>NaN\<close> equals itself there). \<open>set.add(x)\<close> leaves the set as it is when \<open>x\<close> is a
  member; \<open>new Set(xs)\<close> adds the elements of \<open>xs\<close> from the left; \<open>set.size\<close> is the
  number of elements.
\<close>

definition set_add :: "jsnum list \<Rightarrow> jsnum \<Rightarrow> jsnum list" where
  "set_add s x = (if x \<in> set s then s else s @ [x])"

definition new_Set :: "jsnum list \<Rightarrow> jsnum list" where
  "new_Set xs = foldl set_add [] xs"

definition set_size :: "jsnum list \<Rightarrow> jsnum" where
  "set_size s = Fin (of_nat (length s))"

text \<open>
  \<^verbatim>\<open>while (set.size < total) {
    set.add(randInt(min, max));
  }\<close>
  The loop has no bound of its own: it ends when enough distinct numbers were drawn.
  The model runs it on the list of the values \<open>Math.random()\<close> returns, one per
  iteration, and gives the set together with the draws not consumed; \<open>None\<close> says
  that the draws given ran out with the set still short of \<open>total\<close> (written \<open>tot\<close>).
\<close>

fun fill_loop :: "jsnum \<Rightarrow> jsnum \<Rightarrow> jsnum \<Rightarrow> jsnum list \<Rightarrow> rat list \<Rightarrow> (jsnum list \<times> rat list) option" where
  "fill_loop mn mx tot s [] = (if js_lt (set_size s) tot then None else Some (s, []))"
| "fill_loop mn mx tot s (u # us) =
     (if js_lt (set_size s) tot
      then fill_loop mn mx tot (set_add s (randInt u mn mx)) us
      else Some (s, u # us))"

text \<open>
  \<open>xs.sort((a, b) => a - b)\<close>: an element goes before the first one that the
  comparator does not put before it (\<open>y - x < 0\<close> puts \<open>y\<close> before \<open>x\<close>; a \<open>NaN\<close>
  difference counts as \<open>0\<close>). The difference of two distinct finite doubles is never
  rounded to \<open>0\<close> and keeps its sign, so on finite numbers the comparator is a
  consistent order and every sorting algorithm gives this result.
\<close>

fun sort_insert :: "jsnum \<Rightarrow> jsnum list \<Rightarrow> jsnum list" where
  "sort_insert x [] = [x]"
| "sort_insert x (y # ys) =
     (if js_lt (js_sub y x) (Fin 0) then y # sort_insert x ys else x # y # ys)"

definition sort_ascending :: "jsnum list \<Rightarrow> jsnum list" where
  "sort_ascending xs = foldr sort_insert xs []"

text \<open>
  \<^verbatim>\<open>function generateUniqueNumbersWithFixed({ min, max, total, fixedNumbers }) {
    const set = new Set(fixedNumbers || []);
    while (set.size < total) { set.add(randInt(min, max)); }
    return Array.from(set).sort((a, b) => a - b);
  }\<close>
  \<open>fixedNumbers\<close> may be left out (\<open>None\<close>).
\<close>

definition generateUniqueNumbersWithFixed ::
  "jsnum \<Rightarrow> jsnum \<Rightarrow> jsnum \<Rightarrow> jsnum list option \<Rightarrow> rat list \<Rightarrow> (jsnum list \<times> rat list) option" where
  "generateUniqueNumbersWithFixed mn mx tot fixedNumbers us =
     (case fill_loop mn mx tot (new_Set (case fixedNumbers of None \<Rightarrow> [] | Some f \<Rightarrow> f)) us of
        None \<Rightarrow> None
      | Some (s, rest) \<Rightarrow> Some (sort_ascending s, rest))"

text \<open>
  What the ticket theorem asks of the draws: each is a value \<open>Math.random()\<close> can
  return, a double in \<open>[0, 1)\<close>, and together with the fixed numbers they reach
  \<open>total\<close> distinct numbers (otherwise the loop is still running when they are used up).
\<close>

definition valid_draws :: "rat list \<Rightarrow> bool" where
  "valid_draws us = list_all (\<lambda>u. 0 \<le> u \<and> u < 1 \<and> is_double u) us"

definition enough_draws :: "jsnum \<Rightarrow> jsnum \<Rightarrow> int \<Rightarrow> jsnum list \<Rightarrow> rat list \<Rightarrow> bool" where
  "enough_draws mn mx tot fixed us =
     (tot \<le> int (card (set fixed \<union> (\<lambda>u. randInt u mn mx) ` set us)))"

section \<open>Exploding one envelope into records (showPredictions of loto7-logic)\<close>

text \<open>Decimal digits of a natural number: the key of an array index.\<close>

fun show_nat :: "nat \<Rightarrow> string" where
  "show_nat n =
     (if n < 10 then [char_of (48 + n)] else show_nat (n div 10) @ [char_of (48 + n mod 10)])"

text \<open>
  \<open>{...v}\<close>: the own enumerable properties of \<open>v\<close>. An array and a string have
  their indices; a number, a boolean, \<open>null\<close> and \<open>undefined\<close> have none.
\<close>

fun own_props :: "jsval \<Rightarrow> (string \<times> jsval) list" where
  "own_props (JObj kvs) = kvs"
| "own_props (JArr xs) = zip (map show_nat [0..<length xs]) xs"
| "own_props (JStr s) = zip (map show_nat [0..<length s]) (map (\<lambda>c. JStr [c]) s)"
| "own_props v = []"

text \<open>
  \<open>xs.slice(0, end)\<close> for a number \<open>end\<close>: \<open>end\<close> is truncated to an integer
  (\<open>NaN\<close> counts as 0); a negative \<open>end\<close> counts from the end of the array.
\<close>

definition slice0 :: "'a list \<Rightarrow> jsnum \<Rightarrow> 'a list" where
  "slice0 xs e =
     (case e of
        NaN \<Rightarrow> []
      | NegInf \<Rightarrow> []
      | PosInf \<Rightarrow> xs
      | Fin r \<Rightarrow>
          (let k = (if 0 \<le> r then \<lfloor>r\<rfloor> else \<lceil>r\<rceil>)
           in if k < 0 then take (nat (int (length xs) + k)) xs else take (nat k) xs))"

text \<open>
  The list of records \<open>showPredictions(payload, count)\<close> of loto7-logic.js hands to the
  card renderer (the variable \<open>list\<close>):
  \<^verbatim>\<open>if (Array.isArray(payload)) { list = payload; }
  else {
    const json = payload || {};
    const pred = json.prediction || {};
    const tickets = Array.isArray(pred.tickets) ? pred.tickets : [];
    const fixed = Array.isArray(pred.fixed_numbers) ? pred.fixed_numbers : [];
    const baseTickets = tickets.length ? tickets : [pred.numbers || []];
    const slice = baseTickets.slice(0, count);
    list = slice.map((nums) => ({
      ...json, prediction: { ...pred, numbers: nums, fixed_numbers: fixed } }));
  }\<close>
  Writing a property of an object literal replaces the value of a key the spread
  brought in and adds the key otherwise, which is \<open>AList.update\<close>.
\<close>

definition explode_record :: "jsval \<Rightarrow> jsval \<Rightarrow> jsval \<Rightarrow> jsval \<Rightarrow> jsval" where
  "explode_record json pred fixed nums =
     JObj (AList.update ''prediction''
            (JObj (AList.update ''fixed_numbers'' fixed
                    (AList.update ''numbers'' nums (own_props pred))))
            (own_props json))"

definition showPredictions_list :: "jsval \<Rightarrow> jsnum \<Rightarrow> jsval list" where
  "showPredictions_list payload count =
     (case payload of
        JArr ps \<Rightarrow> ps
      | _ \<Rightarrow>
          (let json = js_or payload (JObj []);
               pred = js_or (get_prop json ''prediction'') (JObj []);
               tickets = (case get_prop pred ''tickets'' of JArr ts \<Rightarrow> ts | _ \<Rightarrow> []);
               fixed = (if isArray (get_prop pred ''fixed_numbers'')
                        then get_prop pred ''fixed_numbers'' else JArr []);
               baseTickets = (if tickets \<noteq> [] then tickets
                              else [js_or (get_prop pred ''numbers'') (JArr [])]);
               slice = slice0 baseTickets count
           in map (explode_record json pred fixed) slice))"

text \<open>
  For the theorem on the record list: the envelope and its prediction as
  \<open>showPredictions\<close> reads them
  (\<open>payload || {}\<close> and \<open>json.prediction || {}\<close>), and the fixed numbers it gives every
  record.
\<close>

definition envelope_json :: "jsval \<Rightarrow> jsval" where
  "envelope_json payload = js_or payload (JObj [])"

definition envelope_pred :: "jsval \<Rightarrow> jsval" where
  "envelope_pred payload = js_or (get_prop (envelope_json payload) ''prediction'') (JObj [])"

definition carried_fixed :: "jsval \<Rightarrow> jsval" where
  "carried_fixed pred =
     (if isArray (get_prop pred ''fixed_numbers'') then get_prop pred ''fixed_numbers''
      else JArr [])"

text \<open>
  \<open>r\<close> is a shallow copy of \<open>json\<close> but for \<open>prediction\<close>, which is a shallow copy
  of \<open>pred\<close> but for \<open>numbers\<close> and \<open>fixed_numbers\<close>, which are \<open>nums\<close> and
  \<open>fixed\<close>.
\<close>

definition record_of_ticket :: "jsval \<Rightarrow> jsval \<Rightarrow> jsval \<Rightarrow> jsval \<Rightarrow> jsval \<Rightarrow> bool" where
  "record_of_ticket json pred fixed nums r =
     ((\<forall>k. k \<noteq> ''prediction'' \<longrightarrow> map_of (own_props r) k = map_of (own_props json) k)
      \<and> get_prop (get_prop r ''prediction'') ''numbers'' = nums
      \<and> get_prop (get_prop r ''prediction'') ''fixed_numbers'' = fixed
      \<and> (\<forall>k. k \<noteq> ''numbers'' \<and> k \<noteq> ''fixed_numbers'' \<longrightarrow>
             map_of (own_props (get_prop r ''prediction'')) k = map_of (own_props pred) k))"

section \<open>Browser, requests and responses\<close>

text \<open>
  A thrown value. \<open>Error\<close> is what the pages throw themselves (\<open>new Error(msg)\<close>);
  \<open>TypeError\<close> and \<open>SyntaxError\<close> are raised by the runtime (a property read on
  \<open>null\<close>, a rejected \<open>fetch\<close>, a body that is not JSON). The handlers look at
  \<open>e.message\<close> only.
\<close>

datatype js_error = Error string | TypeError string | SyntaxError string

fun message :: "js_error \<Rightarrow> string" where
  "message (Error m) = m"
| "message (TypeError m) = m"
| "message (SyntaxError m) = m"

text \<open>The error of reading a property of \<open>null\<close>; the text is the engine's.\<close>

definition null_access :: js_error where
  "null_access = TypeError ''Cannot read properties of null''"

text \<open>
  A request body: a string, or anything else \<open>fetch\<close> takes (FormData, Blob, ...),
  for which \<open>typeof body === "string"\<close> is false.
\<close>

datatype req_body = StringBody string | OtherBody

text \<open>
  What \<open>options.headers\<close> can be, as \<open>fetch\<close> takes it: a \<open>Headers\<close> instance,
  which keeps its entries (here: names and values in order) in internal slots and has
  no own enumerable property; or any other value (\<open>Plain\<close>): an object literal of
  names and values, an array of name and value pairs, or \<open>null\<close>, a string, ... that a
  caller passes by mistake.
\<close>

datatype headers_init = Plain jsval | HeadersInstance "(string \<times> string) list"

text \<open>
  The \<open>options\<close> object given to \<open>fetch\<close>; a field left out is \<open>None\<close>. Property
  names are case-sensitive, as object keys are.
\<close>

record options =
  opt_method :: "string option"
  opt_headers :: "headers_init option"
  opt_body :: "req_body option"

text \<open>\<open>{ method: "GET" }\<close>, the options of every request the pages make.\<close>

definition GET :: options where
  "GET = \<lparr>opt_method = Some ''GET'', opt_headers = None, opt_body = None\<rparr>"

text \<open>
  A URL: the address up to the query and the query parameters in the order they were
  set. Resolution against the origin and percent-encoding are the browser's.
\<close>

type_synonym url = "string \<times> (string \<times> string) list"

text \<open>
  A response: its status and what \<open>res.json()\<close> settles to (the parsed body, or the
  error it rejects with). \<open>res.ok\<close> is a status from 200 to 299.
\<close>

record response =
  status :: nat
  json_body :: "js_error + jsval"

definition ok :: "response \<Rightarrow> bool" where
  "ok res = (200 \<le> status res \<and> status res \<le> 299)"

text \<open>\<open>fetch\<close> resolves with a response or rejects (no connection, CORS, ...).\<close>

datatype fetch_result = Rejected js_error | Resolved response

type_synonym network = "url \<Rightarrow> options \<Rightarrow> fetch_result"

text \<open>
  What a call does to the browser, in order; kept beside the state so that a theorem
  can count how often something was done.
\<close>

datatype effect =
    Fetch url options
  | RemoveItem string
  | SetItem string string
  | Navigate string

text \<open>
  The browser state the session code touches: \<open>localStorage\<close>, the target last
  assigned to \<open>window.location.href\<close>, and the effects so far.
\<close>

record browser =
  storage :: "string \<rightharpoonup> string"
  href :: string
  effects :: "effect list"

text \<open>
  Conversions of the host that the pages call and this development does not spell out:
  \<open>Number(v)\<close>, \<open>String(v)\<close> and \<open>JSON.stringify(v)\<close>. Every theorem holds for
  every host.
\<close>

record host =
  Number_of :: "jsval \<Rightarrow> jsnum"
  String_of :: "jsval \<Rightarrow> string"
  JSON_stringify :: "jsval \<Rightarrow> string"

definition record_effect :: "effect \<Rightarrow> browser \<Rightarrow> browser" where
  "record_effect e s = s\<lparr>effects := effects s @ [e]\<rparr>"

text \<open>\<open>window.location.href = target\<close>\<close>

definition navigate :: "string \<Rightarrow> browser \<Rightarrow> browser" where
  "navigate target s = record_effect (Navigate target) (s\<lparr>href := target\<rparr>)"

text \<open>\<open>fetch(url, options)\<close> against the network \<open>net\<close>.\<close>

definition do_fetch :: "network \<Rightarrow> url \<Rightarrow> options \<Rightarrow> browser \<Rightarrow> fetch_result \<times> browser" where
  "do_fetch net u opts s = (net u opts, record_effect (Fetch u opts) s)"

section \<open>Session manager (auth.js)\<close>

text \<open>\<open>localStorage.getItem("access_token")\<close>: \<open>null\<close> (here \<open>None\<close>) when absent.\<close>

definition getToken :: "browser \<Rightarrow> string option" where
  "getToken s = storage s ''access_token''"

definition setToken :: "string \<Rightarrow> browser \<Rightarrow> browser" where
  "setToken token s =
     record_effect (SetItem ''access_token'' token)
       (s\<lparr>storage := (storage s)(''access_token'' \<mapsto> token)\<rparr>)"

definition removeToken :: "browser \<Rightarrow> browser" where
  "removeToken s =
     record_effect (RemoveItem ''access_token'')
       (s\<lparr>storage := (storage s)(''access_token'' := None)\<rparr>)"

definition setUser :: "host \<Rightarrow> jsval \<Rightarrow> browser \<Rightarrow> browser" where
  "setUser h user s =
     record_effect (SetItem ''user'' (JSON_stringify h user))
       (s\<lparr>storage := (storage s)(''user'' \<mapsto> JSON_stringify h user)\<rparr>)"

definition removeUser :: "browser \<Rightarrow> browser" where
  "removeUser s =
     record_effect (RemoveItem ''user'')
       (s\<lparr>storage := (storage s)(''user'' := None)\<rparr>)"

text \<open>\<open>if (token)\<close> on what \<open>getItem\<close> returned: present and not the empty string.\<close>

fun token_truthy :: "string option \<Rightarrow> bool" where
  "token_truthy None = False"
| "token_truthy (Some t) = (t \<noteq> [])"

text \<open>
  \<open>options.headers ? { ...options.headers } : {}\<close>: the own enumerable properties
  of \<open>options.headers\<close>, copied into a fresh object. For an object literal these are
  its headers; for an array of pairs they are its indices with the pairs as values;
  a \<open>Headers\<close> instance has none, and neither has a missing or falsy value.
\<close>

definition spread_headers :: "options \<Rightarrow> (string \<times> jsval) list" where
  "spread_headers opts =
     (case opt_headers opts of
        None \<Rightarrow> []
      | Some (HeadersInstance hs) \<Rightarrow> []
      | Some (Plain v) \<Rightarrow> if truthy v then own_props v else [])"

text \<open>
  The request \<open>fetchWithAuth\<close> sends (lines 48 to 56 of auth.js):
  \<^verbatim>\<open>const token = getToken();
  const headers = options.headers ? { ...options.headers } : {};
  if (token) { headers["Authorization"] = "Bearer " + token; }
  if (!headers["Content-Type"] && options.body && typeof options.body === "string") {
    headers["Content-Type"] = "application/json";
  }
  const res = await fetch(url, { ...options, headers });\<close>
  \<open>!headers["Content-Type"]\<close> holds when the key is absent or its value is falsy
  (the empty string, for one); \<open>options.body && typeof options.body === "string"\<close>
  holds for a non-empty string body. The headers of the request are always a fresh
  object literal.
\<close>

definition decorate :: "string option \<Rightarrow> options \<Rightarrow> options" where
  "decorate token opts =
     (let headers0 = spread_headers opts;
          headers1 = (if token_truthy token
                      then AList.update ''Authorization'' (JStr (''Bearer '' @ the token)) headers0
                      else headers0);
          no_ct = (\<not> truthy (get_prop (JObj headers1) ''Content-Type''));
          str_body = (case opt_body opts of Some (StringBody b) \<Rightarrow> b \<noteq> [] | _ \<Rightarrow> False);
          headers2 = (if no_ct \<and> str_body
                      then AList.update ''Content-Type'' (JStr ''application/json'') headers1
                      else headers1)
      in opts\<lparr>opt_headers := Some (Plain (JObj headers2))\<rparr>)"

text \<open>The properties of the headers object of the request \<open>fetchWithAuth\<close> sends.\<close>

definition sent_headers :: "browser \<Rightarrow> options \<Rightarrow> (string \<times> jsval) list" where
  "sent_headers s opts =
     (case opt_headers (decorate (getToken s) opts) of
        Some (Plain v) \<Rightarrow> own_props v
      | _ \<Rightarrow> [])"

text \<open>
  \<^verbatim>\<open>async function fetchWithAuth(url, options = {}) {
    ... const res = await fetch(url, { ...options, headers });
    if (res.status === 401) {
      removeToken();
      removeUser();
      window.location.href = "login.html";
      throw new Error("Unauthorized");
    }
    return res;
  }\<close>
  A rejected \<open>fetch\<close> rejects the call with the same error.
\<close>

definition fetchWithAuth :: "network \<Rightarrow> url \<Rightarrow> options \<Rightarrow> browser \<Rightarrow> (js_error + response) \<times> browser" where
  "fetchWithAuth net u opts s =
     (case do_fetch net u (decorate (getToken s) opts) s of
        (Rejected e, s1) \<Rightarrow> (Inl e, s1)
      | (Resolved res, s1) \<Rightarrow>
          if status res = 401
          then (Inl (Error ''Unauthorized''), navigate ''login.html'' (removeUser (removeToken s1)))
          else (Inr res, s1))"

text \<open>
  \<^verbatim>\<open>async function requirePremium() {
    if (!getToken()) { window.location.href = "login.html"; return false; }
    try {
      const res = await fetch(API_BASE + "/auth/me", {
        headers: { "Authorization": "Bearer " + getToken() } });
      if (res.status === 401) {
        removeToken(); removeUser();
        window.location.href = "login.html"; return false; }
      if (!res.ok) { window.location.href = "login.html"; return false; }
      const user = await res.json();
      setUser(user);
      if (!user.is_premium) {
        window.location.href = "login.html?status=unpaid"; return false; }
      return true;
    } catch { window.location.href = "login.html"; return false; }
  }\<close>
  A body that is the JSON \<open>null\<close> is stored by \<open>setUser\<close>; then \<open>user.is_premium\<close>
  throws and the \<open>catch\<close> takes over.
\<close>

definition requirePremium :: "host \<Rightarrow> string \<Rightarrow> network \<Rightarrow> browser \<Rightarrow> bool \<times> browser" where
  "requirePremium h API_BASE net s =
     (if \<not> token_truthy (getToken s) then (False, navigate ''login.html'' s)
      else
        (case do_fetch net (API_BASE @ ''/auth/me'', [])
                \<lparr>opt_method = None,
                 opt_headers = Some (Plain (JObj [(''Authorization'', JStr (''Bearer '' @ the (getToken s)))])),
                 opt_body = None\<rparr> s of
           (Rejected e, s1) \<Rightarrow> (False, navigate ''login.html'' s1)
         | (Resolved res, s1) \<Rightarrow>
             if status res = 401
             then (False, navigate ''login.html'' (removeUser (removeToken s1)))
             else if \<not> ok res then (False, navigate ''login.html'' s1)
             else
               (case json_body res of
                  Inl e \<Rightarrow> (False, navigate ''login.html'' s1)
                | Inr user \<Rightarrow>
                    (let s2 = setUser h user s1
                     in if nullish user then (False, navigate ''login.html'' s2)
                        else if \<not> truthy (get_prop user ''is_premium'')
                        then (False, navigate ''login.html?status=unpaid'' s2)
                        else (True, s2)))))"

section \<open>Page state and its display (loto6-logic.js, loto7-logic.js)\<close>

text \<open>
  The texts the pages show are Japanese sentences; each is named here by what it says:
  the progress line with the count, the retry-later line of the click handler, and
  the line of loto7-logic for a failed draw lookup.
\<close>

datatype ui_message = Generating jsnum | RetryLater | DrawInfoFailed

text \<open>The three labels of the issue button: issuing, issue, issue again.\<close>

datatype label = LabelIssuing | LabelIssue | LabelReissue

text \<open>
  What \<open>predictionCards.innerHTML\<close> holds: nothing, the error card with its message,
  the paywall card, or one card per ticket or record (the markup is a projection of
  these).
\<close>

datatype cards_view = NoCards | ErrorCard ui_message | PremiumWall | TicketCards "jsval list"

text \<open>
  The page: the issue button, the progress line, the cards, the text of the optional
  elements \<open>#round\<close> and \<open>#drawDate\<close> (\<open>None\<close> when the element is not in the
  document), and the variables \<open>round\<close> and \<open>drawDate\<close>.
\<close>

record page =
  button_disabled :: bool
  button_text :: label
  state_hidden :: bool
  state_text :: "ui_message option"
  cards_hidden :: bool
  cards :: cards_view
  round_text :: "string option"
  drawDate_text :: "string option"
  round_js :: jsnum
  drawDate :: string

text \<open>
  \<^verbatim>\<open>function setButtonLoading(isLoading) {
    issueButton.disabled = isLoading;
    issueButton.textContent = isLoading ? (issuing) : (issue);
  }\<close>
\<close>

definition setButtonLoading :: "bool \<Rightarrow> page \<Rightarrow> page" where
  "setButtonLoading isLoading p =
     p\<lparr>button_disabled := isLoading,
       button_text := (if isLoading then LabelIssuing else LabelIssue)\<rparr>"

definition showLoading :: "ui_message \<Rightarrow> page \<Rightarrow> page" where
  "showLoading msg p =
     setButtonLoading True
       (p\<lparr>cards := NoCards, cards_hidden := True, state_hidden := False, state_text := Some msg\<rparr>)"

definition showError :: "ui_message \<Rightarrow> page \<Rightarrow> page" where
  "showError msg p =
     setButtonLoading False
       (p\<lparr>state_hidden := True, cards_hidden := False, cards := ErrorCard msg\<rparr>)"

definition showPremiumWall :: "page \<Rightarrow> page" where
  "showPremiumWall p =
     setButtonLoading False
       (p\<lparr>state_hidden := True, cards_hidden := False, cards := PremiumWall\<rparr>)"

section \<open>Draw info client (fetchLatestDraw)\<close>

text \<open>
  loto6-logic.js:
  \<^verbatim>\<open>async function fetchLatestDraw() {
    const url = new URL(`${ENGINE_BASE}/draw/latest`, location.origin);
    url.searchParams.set("loto_type", LOTO_TYPE);
    const res = await fetch(url.toString(), { method: "GET" });
    const data = await res.json();
    if (roundEl) roundEl.textContent = String(data.round ?? "-");
    if (drawDateEl) drawDateEl.textContent = String(data.draw_date ?? "-");
    return data;
  }\<close>
  The status of the response is not looked at.
\<close>

definition fetchLatestDraw_loto6 ::
  "host \<Rightarrow> network \<Rightarrow> string \<Rightarrow> page \<Rightarrow> browser \<Rightarrow> (js_error + jsval) \<times> page \<times> browser" where
  "fetchLatestDraw_loto6 h net ENGINE_BASE p s =
     (case do_fetch net (ENGINE_BASE @ ''/draw/latest'', [(''loto_type'', ''loto6'')]) GET s of
        (Rejected e, s1) \<Rightarrow> (Inl e, p, s1)
      | (Resolved res, s1) \<Rightarrow>
          (case json_body res of
             Inl e \<Rightarrow> (Inl e, p, s1)
           | Inr data \<Rightarrow>
               if round_text p \<noteq> None \<and> nullish data then (Inl null_access, p, s1)
               else
                 (let p1 = (if round_text p \<noteq> None
                            then p\<lparr>round_text :=
                                   Some (String_of h (js_coalesce (get_prop data ''round'') (JStr ''-'')))\<rparr>
                            else p)
                  in if drawDate_text p1 \<noteq> None \<and> nullish data then (Inl null_access, p1, s1)
                     else
                       (let p2 = (if drawDate_text p1 \<noteq> None
                                  then p1\<lparr>drawDate_text :=
                                          Some (String_of h
                                                 (js_coalesce (get_prop data ''draw_date'') (JStr ''-'')))\<rparr>
                                  else p1)
                        in (Inr data, p2, s1)))))"

text \<open>
  loto7-logic.js:
  \<^verbatim>\<open>async function fetchLatestDraw() {
    ... const res = await fetch(url.toString(), { method: "GET" });
    if (!res.ok) throw new Error(`draw/latest error: ${res.status}`);
    const d = await res.json();
    round = Number(d.round || 0);
    drawDate = String(d.draw_date || "");
    const roundEl = document.getElementById("round");
    const drawEl = document.getElementById("drawDate");
    if (roundEl) roundEl.textContent = String(round || "-");
    if (drawEl) drawEl.textContent = drawDate || "-";
  }\<close>
\<close>

definition fetchLatestDraw_loto7 ::
  "host \<Rightarrow> network \<Rightarrow> string \<Rightarrow> page \<Rightarrow> browser \<Rightarrow> (js_error + unit) \<times> page \<times> browser" where
  "fetchLatestDraw_loto7 h net ENGINE_BASE p s =
     (case do_fetch net (ENGINE_BASE @ ''/draw/latest'', [(''loto_type'', ''loto7'')]) GET s of
        (Rejected e, s1) \<Rightarrow> (Inl e, p, s1)
      | (Resolved res, s1) \<Rightarrow>
          if \<not> ok res
          then (Inl (Error (''draw/latest error: '' @ show_nat (status res))), p, s1)
          else
            (case json_body res of
               Inl e \<Rightarrow> (Inl e, p, s1)
             | Inr d \<Rightarrow>
                 if nullish d then (Inl null_access, p, s1)
                 else
                   (let r = Number_of h (js_or (get_prop d ''round'') (JNum (Fin 0)));
                        dd = String_of h (js_or (get_prop d ''draw_date'') (JStr []));
                        p1 = p\<lparr>round_js := r, drawDate := dd\<rparr>;
                        p2 = (if round_text p1 \<noteq> None
                              then p1\<lparr>round_text := Some (String_of h (js_or (JNum r) (JStr ''-'')))\<rparr>
                              else p1);
                        p3 = (if drawDate_text p2 \<noteq> None
                              then p2\<lparr>drawDate_text := Some (if dd \<noteq> [] then dd else ''-'')\<rparr>
                              else p2)
                    in (Inr (), p3, s1))))"

text \<open>
  loto7-logic.js, when the page has loaded:
  \<^verbatim>\<open>fetchLatestDraw().catch((e) => {
    console.error(e);
    showError((the draw information could not be fetched ...));
  });\<close>
\<close>

definition page_load_loto7 :: "host \<Rightarrow> network \<Rightarrow> string \<Rightarrow> page \<Rightarrow> browser \<Rightarrow> page \<times> browser" where
  "page_load_loto7 h net ENGINE_BASE p s =
     (case fetchLatestDraw_loto7 h net ENGINE_BASE p s of
        (Inl e, p1, s1) \<Rightarrow> (showError DrawInfoFailed p1, s1)
      | (Inr u, p1, s1) \<Rightarrow> (p1, s1))"

section \<open>Prediction client\<close>

text \<open>
  loto6-logic.js and loto7-logic.js, the same but for \<open>LOTO_TYPE\<close>:
  \<^verbatim>\<open>async function fetchPredictionsFromEngine(count) {
    const url = new URL(`${ENGINE_BASE}/engine/prediction`, location.origin);
    url.searchParams.set("user_id", USER_ID);
    url.searchParams.set("loto_type", LOTO_TYPE);
    url.searchParams.set("model", MODEL);
    if (round) url.searchParams.set("round", String(round));
    if (drawDate) url.searchParams.set("draw_date", drawDate);
    url.searchParams.set("count", String(count));
    const res = await LotoAuth.fetchWithAuth(url.toString(), { method: "GET" });
    if (res.status === 403) { throw new Error("PREMIUM_REQUIRED"); }
    if (!res.ok) throw new Error(`Engine error: ${res.status}`);
    const data = await res.json();
    if (Array.isArray(data?.predictions)) return data.predictions;
    if (data?.prediction?.numbers) { return data; }
    throw new Error("Invalid response shape");
  }\<close>
\<close>

definition fetchPredictionsFromEngine ::
  "host \<Rightarrow> network \<Rightarrow> string \<Rightarrow> string \<Rightarrow> page \<Rightarrow> jsnum \<Rightarrow> browser
     \<Rightarrow> (js_error + jsval) \<times> browser" where
  "fetchPredictionsFromEngine h net ENGINE_BASE LOTO_TYPE p count s =
     (let u = (ENGINE_BASE @ ''/engine/prediction'',
               [(''user_id'', ''user001''), (''loto_type'', LOTO_TYPE), (''model'', ''logic'')]
               @ (if truthy (JNum (round_js p))
                  then [(''round'', String_of h (JNum (round_js p)))] else [])
               @ (if drawDate p \<noteq> [] then [(''draw_date'', drawDate p)] else [])
               @ [(''count'', String_of h (JNum count))])
      in case fetchWithAuth net u GET s of
           (Inl e, s1) \<Rightarrow> (Inl e, s1)
         | (Inr res, s1) \<Rightarrow>
             if status res = 403 then (Inl (Error ''PREMIUM_REQUIRED''), s1)
             else if \<not> ok res
             then (Inl (Error (''Engine error: '' @ show_nat (status res))), s1)
             else
               (case json_body res of
                  Inl e \<Rightarrow> (Inl e, s1)
                | Inr data \<Rightarrow>
                    if isArray (get_prop data ''predictions'')
                    then (Inr (get_prop data ''predictions''), s1)
                    else if truthy (get_prop (get_prop data ''prediction'') ''numbers'')
                    then (Inr data, s1)
                    else (Inl (Error ''Invalid response shape''), s1)))"

text \<open>
  loto7-fortune.js:
  \<^verbatim>\<open>async function fetchFortuneOnce({ birthDateStr, count, round, drawDate }) {
    ... url.searchParams.set("model", MODEL);
    url.searchParams.set("birthdate", birthDateStr);
    url.searchParams.set("count", String(count));
    url.searchParams.set("round", String(round));
    url.searchParams.set("draw_date", String(drawDate));
    const res = await LotoAuth.fetchWithAuth(url.toString(), { method: "GET" });
    if (res.status === 403) { throw new Error("PREMIUM_REQUIRED"); }
    if (!res.ok) throw new Error(`Engine error: ${res.status}`);
    const data = await res.json();
    if (!Array.isArray(data?.prediction?.tickets)) {
      throw new Error("Invalid response: prediction.tickets is missing");
    }
    return data;
  }\<close>
\<close>

definition fetchFortuneOnce ::
  "host \<Rightarrow> network \<Rightarrow> string \<Rightarrow> string \<Rightarrow> jsnum \<Rightarrow> jsnum \<Rightarrow> jsval \<Rightarrow> browser
     \<Rightarrow> (js_error + jsval) \<times> browser" where
  "fetchFortuneOnce h net ENGINE_BASE birthDateStr count rnd drawDate_v s =
     (let u = (ENGINE_BASE @ ''/engine/prediction'',
               [(''user_id'', ''user001''), (''loto_type'', ''loto7''), (''model'', ''fortune''),
                (''birthdate'', birthDateStr), (''count'', String_of h (JNum count)),
                (''round'', String_of h (JNum rnd)), (''draw_date'', String_of h drawDate_v)])
      in case fetchWithAuth net u GET s of
           (Inl e, s1) \<Rightarrow> (Inl e, s1)
         | (Inr res, s1) \<Rightarrow>
             if status res = 403 then (Inl (Error ''PREMIUM_REQUIRED''), s1)
             else if \<not> ok res
             then (Inl (Error (''Engine error: '' @ show_nat (status res))), s1)
             else
               (case json_body res of
                  Inl e \<Rightarrow> (Inl e, s1)
                | Inr data \<Rightarrow>
                    if \<not> isArray (get_prop (get_prop data ''prediction'') ''tickets'')
                    then (Inl (Error ''Invalid response: prediction.tickets is missing''), s1)
                    else (Inr data, s1)))"

section \<open>Issuing predictions (click handler of loto6-logic.js)\<close>

text \<open>
  \<^verbatim>\<open>function showPredictions(data) {
    const cards = document.getElementById("predictionCards"); if (!cards) return;
    const pred = data?.prediction || {};
    const tickets = Array.isArray(pred.tickets) ? pred.tickets : [];
    ...
    cards.innerHTML = "";
    for (let i = 0; i < tickets.length; i++) {
      const nums = tickets[i]; ... const balls = nums.map(...) ...
      cards.appendChild(div);
    }
  }\<close>
  One card per ticket. \<open>nums.map\<close> throws on a ticket that is not an array, with the
  cards of the tickets before it already in the page.
\<close>

definition showPredictions_loto6 :: "jsval \<Rightarrow> page \<Rightarrow> (js_error + unit) \<times> page" where
  "showPredictions_loto6 data p =
     (let pred = js_or (get_prop data ''prediction'') (JObj []);
          tickets = (case get_prop pred ''tickets'' of JArr ts \<Rightarrow> ts | _ \<Rightarrow> [])
      in if list_all isArray tickets then (Inr (), p\<lparr>cards := TicketCards tickets\<rparr>)
         else (Inl (TypeError ''nums.map is not a function''),
               p\<lparr>cards := TicketCards (takeWhile isArray tickets)\<rparr>))"

text \<open>
  The \<open>catch\<close> block of the click handler:
  \<^verbatim>\<open>if (e.message === "PREMIUM_REQUIRED") { showPremiumWall(); }
  else { showError((fetching failed, try again later)); }\<close>
\<close>

definition on_failure :: "js_error \<Rightarrow> page \<Rightarrow> page" where
  "on_failure e p =
     (if message e = ''PREMIUM_REQUIRED'' then showPremiumWall p else showError RetryLater p)"

text \<open>
  \<^verbatim>\<open>issueButton.addEventListener("click", async () => {
    const count = clampInt(Number(issueSelect.value || 1), 1, 100);
    try {
      showLoading((generating, count));
      const latest = await fetchLatestDraw();
      round = Number(latest.round || 0);
      drawDate = String(latest.draw_date || "");
      const predictions = USE_MOCK ? await mockFetchPredictions(count)
                                   : await fetchPredictionsFromEngine(count);
      showPredictions(predictions);
      setButtonLoading(false);
      predictionState.hidden = true;
      predictionCards.hidden = false;
    } catch (e) { ... }
  });\<close>
  \<open>USE_MOCK\<close> is the constant \<open>false\<close>. \<open>selected\<close> is \<open>issueSelect.value\<close>.
\<close>

definition issue_click_loto6 ::
  "host \<Rightarrow> network \<Rightarrow> string \<Rightarrow> string \<Rightarrow> page \<Rightarrow> browser \<Rightarrow> page \<times> browser" where
  "issue_click_loto6 h net ENGINE_BASE selected p s =
     (let count = clampInt (Number_of h (js_or (JStr selected) (JNum (Fin 1)))) (Fin 1) (Fin 100);
          p0 = showLoading (Generating count) p
      in case fetchLatestDraw_loto6 h net ENGINE_BASE p0 s of
           (Inl e, p1, s1) \<Rightarrow> (on_failure e p1, s1)
         | (Inr latest, p1, s1) \<Rightarrow>
             if nullish latest then (on_failure null_access p1, s1)
             else
               (let p2 = p1\<lparr>round_js := Number_of h (js_or (get_prop latest ''round'') (JNum (Fin 0))),
                            drawDate := String_of h (js_or (get_prop latest ''draw_date'') (JStr []))\<rparr>
                in case fetchPredictionsFromEngine h net ENGINE_BASE ''loto6'' p2 count s1 of
                     (Inl e, s2) \<Rightarrow> (on_failure e p2, s2)
                   | (Inr predictions, s2) \<Rightarrow>
                       (case showPredictions_loto6 predictions p2 of
                          (Inl e, p3) \<Rightarrow> (on_failure e p3, s2)
                        | (Inr u, p3) \<Rightarrow>
                            ((setButtonLoading False p3)\<lparr>state_hidden := True, cards_hidden := False\<rparr>,
                             s2))))"

section \<open>Example inputs\<close>

text \<open>Concrete servers, browsers, pages and envelopes on which the theorems are run.\<close>

text \<open>A network that answers every request with the same response.\<close>

definition respond :: "response \<Rightarrow> network" where
  "respond res = (\<lambda>u opts. Resolved res)"

text \<open>A browser holding a token and a cached profile.\<close>

definition signed_in :: browser where
  "signed_in =
     \<lparr>storage = [''access_token'' \<mapsto> ''tok'', ''user'' \<mapsto> ''{}''],
      href = ''loto6.html'', effects = []\<rparr>"

text \<open>
  A host for the examples: \<open>Number\<close> and \<open>String\<close> are right on numbers and strings
  and give \<open>NaN\<close> and the empty string elsewhere; \<open>JSON.stringify\<close> gives a fixed text.
\<close>

definition plain_host :: host where
  "plain_host =
     \<lparr>Number_of = (\<lambda>v. case v of JNum n \<Rightarrow> n | _ \<Rightarrow> NaN),
      String_of = (\<lambda>v. case v of JStr s \<Rightarrow> s | _ \<Rightarrow> []),
      JSON_stringify = (\<lambda>v. ''{}'')\<rparr>"

text \<open>The page before the first click, with both optional elements present.\<close>

definition idle_page :: page where
  "idle_page =
     \<lparr>button_disabled = False, button_text = LabelIssue, state_hidden = True,
      state_text = None, cards_hidden = False, cards = NoCards,
      round_text = Some ''-'', drawDate_text = Some ''-'', round_js = Fin 0, drawDate = []\<rparr>"

text \<open>
  A server whose draw endpoint is down (status 500 with the JSON error body of the
  backend) while the prediction endpoint answers with one ticket.
\<close>

definition one_ticket :: jsval where
  "one_ticket =
     JObj [(''prediction'',
            JObj [(''numbers'', JArr [JNum (Fin 1), JNum (Fin 2), JNum (Fin 3)]),
                  (''tickets'', JArr [JArr [JNum (Fin 1), JNum (Fin 2), JNum (Fin 3)]])])]"

definition draw_down :: network where
  "draw_down = (\<lambda>u opts.
     if fst u = ''/draw/latest''
     then Resolved \<lparr>status = 500,
                    json_body = Inr (JObj [(''detail'', JStr ''Internal Server Error'')])\<rparr>
     else Resolved \<lparr>status = 200, json_body = Inr one_ticket\<rparr>)"

text \<open>
  A server whose draw endpoint answers and whose prediction endpoint refuses with 403.
\<close>

definition paywalled :: network where
  "paywalled = (\<lambda>u opts.
     if fst u = ''/draw/latest''
     then Resolved \<lparr>status = 200,
                    json_body = Inr (JObj [(''round'', JNum (Fin 1894)),
                                           (''draw_date'', JStr ''2026-02-01'')])\<rparr>
     else Resolved \<lparr>status = 403,
                    json_body = Inr (JObj [(''detail'', JStr ''Premium required'')])\<rparr>)"

text \<open>The envelope of the specification's example: two tickets, \<open>fixed_numbers = [1]\<close>.\<close>

definition two_tickets :: jsval where
  "two_tickets =
     JObj [(''meta'', JObj [(''model'', JStr ''logic'')]),
           (''prediction'',
            JObj [(''numbers'', JArr [JNum (Fin 1), JNum (Fin 2), JNum (Fin 3)]),
                  (''tickets'', JArr [JArr [JNum (Fin 1), JNum (Fin 2), JNum (Fin 3)],
                                      JArr [JNum (Fin 4), JNum (Fin 5), JNum (Fin 6)]]),
                  (''fixed_numbers'', JArr [JNum (Fin 1)])])]"

text \<open>An envelope with two tickets and \<open>fixed_numbers: null\<close>.\<close>

definition two_tickets_null_fixed :: jsval where
  "two_tickets_null_fixed =
     JObj [(''meta'', JObj [(''model'', JStr ''logic'')]),
           (''prediction'',
            JObj [(''numbers'', JArr [JNum (Fin 1), JNum (Fin 2), JNum (Fin 3)]),
                  (''tickets'', JArr [JArr [JNum (Fin 1), JNum (Fin 2), JNum (Fin 3)],
                                      JArr [JNum (Fin 4), JNum (Fin 5), JNum (Fin 6)]]),
                  (''fixed_numbers'', JNull)])]"

text \<open>An envelope with \<open>prediction.numbers\<close> and no tickets.\<close>

definition numbers_only :: jsval where
  "numbers_only = JObj [(''prediction'', JObj [(''numbers'', JArr [JNum (Fin 7)])])]"

section \<open>Properties\<close>

subsection \<open>clampInt\<close>

lemma rat_trunc_int: "\<exists>k. rat_trunc r = of_int k"
  by (auto simp: rat_trunc_def)

lemma rat_trunc_of_int [simp]: "rat_trunc (of_int k) = of_int k"
  by (simp add: rat_trunc_def)

lemma clampInt_fin:
  "clampInt (Fin r) (Fin 1) (Fin 100) =
     Fin (if rat_trunc r < 1 then 1 else if 100 < rat_trunc r then 100 else rat_trunc r)"
  by (simp add: clampInt_def Math_min_def Math_max_def)

lemma rat_trunc_lt1: "r < 1 \<Longrightarrow> rat_trunc r < 1"
  by (auto simp: rat_trunc_def)

lemma rat_trunc_in: "1 \<le> r \<Longrightarrow> r \<le> 100 \<Longrightarrow> 1 \<le> rat_trunc r \<and> rat_trunc r \<le> 100"
  by (auto simp: rat_trunc_def)

lemma rat_trunc_gt: "100 < r \<Longrightarrow> 100 \<le> rat_trunc r"
  by (auto simp: rat_trunc_def)

text \<open>
  Claim C7, as the code has it. For every number \<open>n\<close> (whatever \<open>Number(x)\<close> gave,
  \<open>NaN\<close> and the infinities included) \<open>clampInt(n, 1, 100)\<close> is an integer in
  \<open>[1, 100]\<close>, and clamping is idempotent. A finite input in range is truncated
  towards zero, a finite input below 1 gives 1 and one above 100 gives 100. A
  non-finite input (\<open>NaN\<close>, \<open>Infinity\<close>, \<open>-Infinity\<close>) gives the lower bound 1: the
  guard \<open>if (!Number.isFinite(n)) return min\<close> does not look at the sign.
\<close>

theorem clampInt_law:
  "(\<exists>k. clampInt n (Fin 1) (Fin 100) = Fin (of_int k) \<and> 1 \<le> k \<and> k \<le> 100)
   \<and> clampInt (clampInt n (Fin 1) (Fin 100)) (Fin 1) (Fin 100) = clampInt n (Fin 1) (Fin 100)
   \<and> (1 \<le> r \<and> r \<le> 100 \<longrightarrow> clampInt (Fin r) (Fin 1) (Fin 100) = Fin (rat_trunc r))
   \<and> (r < 1 \<longrightarrow> clampInt (Fin r) (Fin 1) (Fin 100) = Fin 1)
   \<and> (100 < r \<longrightarrow> clampInt (Fin r) (Fin 1) (Fin 100) = Fin 100)
   \<and> (\<not> isFinite n \<longrightarrow> clampInt n (Fin 1) (Fin 100) = Fin 1)"
proof -
  have range: "\<exists>k. clampInt n (Fin 1) (Fin 100) = Fin (of_int k) \<and> 1 \<le> k \<and> k \<le> 100"
  proof (cases n)
    case (Fin q)
    obtain k where k: "rat_trunc q = of_int k" using rat_trunc_int by blast
    show ?thesis
    proof (cases "k < 1")
      case True
      then show ?thesis using k Fin by (intro exI[of _ 1]) (simp add: clampInt_fin)
    next
      case False
      show ?thesis
      proof (cases "100 < k")
        case True
        then show ?thesis using k Fin by (intro exI[of _ 100]) (simp add: clampInt_fin)
      next
        case F2: False
        then show ?thesis using k Fin False by (intro exI[of _ k]) (simp add: clampInt_fin)
      qed
    qed
  qed (auto simp: clampInt_def intro: exI[of _ 1])
  have idem: "clampInt (clampInt n (Fin 1) (Fin 100)) (Fin 1) (Fin 100) = clampInt n (Fin 1) (Fin 100)"
  proof -
    obtain k where k: "clampInt n (Fin 1) (Fin 100) = Fin (of_int k)" "1 \<le> k" "k \<le> 100"
      using range by blast
    show ?thesis unfolding k(1) using k(2,3) by (simp add: clampInt_fin)
  qed
  have inr: "1 \<le> r \<and> r \<le> 100 \<longrightarrow> clampInt (Fin r) (Fin 1) (Fin 100) = Fin (rat_trunc r)"
  proof
    assume a: "1 \<le> r \<and> r \<le> 100"
    then have "1 \<le> rat_trunc r \<and> rat_trunc r \<le> 100" using rat_trunc_in by blast
    then show "clampInt (Fin r) (Fin 1) (Fin 100) = Fin (rat_trunc r)"
      by (simp add: clampInt_fin)
  qed
  have lo: "r < 1 \<longrightarrow> clampInt (Fin r) (Fin 1) (Fin 100) = Fin 1"
    using rat_trunc_lt1 by (simp add: clampInt_fin)
  have hi: "100 < r \<longrightarrow> clampInt (Fin r) (Fin 1) (Fin 100) = Fin 100"
    using rat_trunc_gt [of r] by (auto simp: clampInt_fin)
  have nf: "\<not> isFinite n \<longrightarrow> clampInt n (Fin 1) (Fin 100) = Fin 1"
    by (simp add: clampInt_def)
  show ?thesis using range idem inr lo hi nf by blast
qed

text \<open>The law at 3.5, -5, 100.1 and \<open>-Infinity\<close>.\<close>

theorem clampInt_law_witness:
  "clampInt (Fin (7/2)) (Fin 1) (Fin 100) = Fin 3
   \<and> clampInt (Fin (-5)) (Fin 1) (Fin 100) = Fin 1
   \<and> clampInt (Fin (1001/10)) (Fin 1) (Fin 100) = Fin 100
   \<and> clampInt NegInf (Fin 1) (Fin 100) = Fin 1
   \<and> clampInt (clampInt (Fin (7/2)) (Fin 1) (Fin 100)) (Fin 1) (Fin 100) = Fin 3"
proof -
  have t: "rat_trunc (7/2) = 3" by code_simp
  have a: "clampInt (Fin (7/2)) (Fin 1) (Fin 100) = Fin 3"
    using clampInt_law [of "Fin (7/2)" "7/2"] t by simp
  have b: "clampInt (Fin (-5)) (Fin 1) (Fin 100) = Fin 1"
    using clampInt_law [of "Fin (-5)" "-5"] by simp
  have c: "clampInt (Fin (1001/10)) (Fin 1) (Fin 100) = Fin 100"
    using clampInt_law [of "Fin (1001/10)" "1001/10"] by simp
  have d: "clampInt NegInf (Fin 1) (Fin 100) = Fin 1"
    using clampInt_law [of NegInf 0] by simp
  have e: "clampInt (clampInt (Fin (7/2)) (Fin 1) (Fin 100)) (Fin 1) (Fin 100) = Fin 3"
    using clampInt_law [of "Fin (7/2)" "7/2"] a by simp
  show ?thesis using a b c d e by simp
qed

text \<open>
  C7 as stated says that a non-finite input snaps to the nearest bound. The bound
  nearest to \<open>Infinity\<close> is 100; the code returns 1.
\<close>

theorem clampInt_posinf_counterexample:
  "clampInt PosInf (Fin 1) (Fin 100) = Fin 1 \<and> clampInt PosInf (Fin 1) (Fin 100) \<noteq> Fin 100"
  by (simp add: clampInt_def)

subsection \<open>Rounding to a double\<close>

lemma round_even_of_int: "round_even (of_int k) = k"
  by (simp add: round_even_def)

lemma round_even_cases:
  "round_even q = \<lfloor>q\<rfloor> \<and> q - of_int \<lfloor>q\<rfloor> \<le> 1/2
   \<or> round_even q = \<lfloor>q\<rfloor> + 1 \<and> 1/2 \<le> q - of_int \<lfloor>q\<rfloor>"
  by (auto simp: round_even_def Let_def)

lemma round_even_ge: "of_int M \<le> q \<Longrightarrow> M \<le> round_even q"
proof -
  assume "of_int M \<le> q"
  then have "M \<le> \<lfloor>q\<rfloor>" by (simp add: le_floor_iff)
  then show ?thesis using round_even_cases [of q] by linarith
qed

lemma round_even_lt: "q < of_int M - 1/2 \<Longrightarrow> round_even q \<le> M - 1"
proof -
  assume a: "q < of_int M - 1/2"
  have fl: "rat_of_int \<lfloor>q\<rfloor> \<le> q" by simp
  consider "round_even q = \<lfloor>q\<rfloor>" | "round_even q = \<lfloor>q\<rfloor> + 1" "1/2 \<le> q - of_int \<lfloor>q\<rfloor>"
    using round_even_cases [of q] by blast
  then show ?thesis
  proof cases
    case 1
    have "rat_of_int \<lfloor>q\<rfloor> < of_int M" using a fl by linarith
    then have "\<lfloor>q\<rfloor> < M" by simp
    then show ?thesis using 1 by simp
  next
    case 2
    have "rat_of_int \<lfloor>q\<rfloor> + 1 < of_int M" using a 2(2) by linarith
    then have "rat_of_int (\<lfloor>q\<rfloor> + 1) < of_int M" by simp
    then have "\<lfloor>q\<rfloor> + 1 < M" by (simp only: of_int_less_iff)
    then show ?thesis using 2(1) by simp
  qed
qed

lemma round_even_le: "q \<le> of_int M \<Longrightarrow> round_even q \<le> M"
proof -
  assume a: "q \<le> of_int M"
  show ?thesis
  proof (cases "q = of_int M")
    case True
    then show ?thesis by (simp add: round_even_of_int)
  next
    case False
    then have lt: "q < of_int M" using a by simp
    then have "\<lfloor>q\<rfloor> < M" by (simp add: floor_less_iff)
    then show ?thesis using round_even_cases [of q] by linarith
  qed
qed

lemma pow2_pos [simp]: "0 < pow2 e"
  by (simp add: pow2_def)

lemma pow2_nonneg [simp]: "0 \<le> pow2 e"
  by (simp add: pow2_def)

lemma abs_pow2 [simp]: "\<bar>pow2 e\<bar> = pow2 e"
  by (simp add: pow2_def)

lemma pow2_neq0 [simp]: "pow2 e \<noteq> 0"
  by (simp add: pow2_def)

lemma pow2_nat: "0 \<le> n \<Longrightarrow> pow2 n = of_int (2 ^ nat n)"
  by (simp add: pow2_def power_int_nonneg_exp)

lemma pow2_0 [simp]: "pow2 0 = 1"
  by (simp add: pow2_def)

lemma pow2_add: "pow2 (m + n) = pow2 m * pow2 n"
  unfolding pow2_def by (rule power_int_add) simp

lemma pow2_diff: "pow2 (m - n) = pow2 m / pow2 n"
  unfolding pow2_def by (rule power_int_diff) simp

lemma pow2_less: "pow2 m < pow2 n \<longleftrightarrow> m < n"
proof
  assume l: "pow2 m < pow2 n"
  show "m < n"
  proof (rule ccontr)
    assume "\<not> m < n"
    then have "n \<le> m" by simp
    then have "pow2 n \<le> pow2 m" unfolding pow2_def by (intro power_int_increasing) simp_all
    with l show False by simp
  qed
next
  assume "m < n"
  then show "pow2 m < pow2 n" unfolding pow2_def by (intro power_int_strict_increasing) simp_all
qed

lemma pow2_le: "pow2 m \<le> pow2 n \<longleftrightarrow> m \<le> n"
  using pow2_less [of n m] by (auto simp: not_less [symmetric])

lemma expo_bounds:
  assumes "x \<noteq> 0"
  shows "pow2 (expo x) \<le> \<bar>x\<bar> \<and> \<bar>x\<bar> < pow2 (expo x + 1)"
proof -
  obtain a b where q: "quotient_of \<bar>x\<bar> = (a, b)" by (cases "quotient_of \<bar>x\<bar>")
  have b: "0 < b" using q by (rule quotient_of_denom_pos)
  have x: "\<bar>x\<bar> = of_int a / of_int b" using q by (rule quotient_of_div)
  have "0 < \<bar>x\<bar>" using assms by simp
  then have a: "0 < a" using x b by (simp add: zero_less_divide_iff)
  define la where "la = bitlen a"
  define lb where "lb = bitlen b"
  have la1: "1 \<le> la" and lb1: "1 \<le> lb"
    using a b bitlen_eq_zero_iff [of a] bitlen_eq_zero_iff [of b] bitlen_nonneg [of a] bitlen_nonneg [of b]
    unfolding la_def lb_def by linarith+
  have ba: "2 ^ nat (la - 1) \<le> a" "a < 2 ^ nat la"
    using bitlen_bounds [OF a] unfolding la_def by simp_all
  have bb: "2 ^ nat (lb - 1) \<le> b" "b < 2 ^ nat lb"
    using bitlen_bounds [OF b] unfolding lb_def by simp_all
  have ra: "pow2 (la - 1) \<le> of_int a" "rat_of_int a < pow2 la"
  proof -
    have "rat_of_int (2 ^ nat (la - 1)) \<le> of_int a" using ba(1) by (simp only: of_int_le_iff)
    then show "pow2 (la - 1) \<le> of_int a" using la1 by (simp add: pow2_nat)
    have "rat_of_int a < of_int (2 ^ nat la)" using ba(2) by (simp only: of_int_less_iff)
    then show "rat_of_int a < pow2 la" using la1 by (simp add: pow2_nat)
  qed
  have rb: "pow2 (lb - 1) \<le> of_int b" "rat_of_int b < pow2 lb"
  proof -
    have "rat_of_int (2 ^ nat (lb - 1)) \<le> of_int b" using bb(1) by (simp only: of_int_le_iff)
    then show "pow2 (lb - 1) \<le> of_int b" using lb1 by (simp add: pow2_nat)
    have "rat_of_int b < of_int (2 ^ nat lb)" using bb(2) by (simp only: of_int_less_iff)
    then show "rat_of_int b < pow2 lb" using lb1 by (simp add: pow2_nat)
  qed
  have bpos: "0 < rat_of_int b" using b by simp
  have up: "\<bar>x\<bar> < pow2 (la - lb + 1)"
  proof -
    have "rat_of_int a < pow2 la" by (rule ra(2))
    also have "\<dots> = pow2 (la - lb + 1) * pow2 (lb - 1)"
      by (simp add: pow2_add [symmetric])
    also have "\<dots> \<le> pow2 (la - lb + 1) * of_int b"
      using rb(1) by (intro mult_left_mono) simp_all
    finally have "rat_of_int a / of_int b < pow2 (la - lb + 1)"
      using bpos by (simp add: divide_less_eq)
    then show ?thesis by (simp add: x)
  qed
  have lo: "pow2 (la - lb - 1) \<le> \<bar>x\<bar>"
  proof -
    have "pow2 (la - lb - 1) * rat_of_int b \<le> pow2 (la - lb - 1) * pow2 lb"
      using rb(2) by (intro mult_left_mono) simp_all
    also have "\<dots> = pow2 (la - 1)" by (simp add: pow2_add [symmetric])
    also have "\<dots> \<le> of_int a" by (rule ra(1))
    finally have "pow2 (la - lb - 1) \<le> rat_of_int a / of_int b"
      using bpos by (simp add: le_divide_eq)
    then show ?thesis by (simp add: x)
  qed
  have e: "expo x = (if pow2 (la - lb) \<le> \<bar>x\<bar> then la - lb else la - lb - 1)"
    by (simp add: expo_def q la_def lb_def Let_def)
  show ?thesis
  proof (cases "pow2 (la - lb) \<le> \<bar>x\<bar>")
    case True
    then show ?thesis using up e by simp
  next
    case False
    then have "\<bar>x\<bar> < pow2 (la - lb)" by simp
    then show ?thesis using lo e False by simp
  qed
qed

lemma expo_unique:
  assumes "pow2 k \<le> \<bar>x\<bar>" "\<bar>x\<bar> < pow2 (k + 1)"
  shows "expo x = k"
proof -
  have "0 < \<bar>x\<bar>" using assms(1) pow2_pos [of k] by linarith
  then have "x \<noteq> 0" by simp
  from expo_bounds [OF this]
  have b: "pow2 (expo x) \<le> \<bar>x\<bar>" "\<bar>x\<bar> < pow2 (expo x + 1)" by simp_all
  have "pow2 k < pow2 (expo x + 1)" using assms(1) b(2) by linarith
  then have 1: "k < expo x + 1" by (simp only: pow2_less)
  have "pow2 (expo x) < pow2 (k + 1)" using assms(2) b(1) by linarith
  then have 2: "expo x < k + 1" by (simp only: pow2_less)
  show ?thesis using 1 2 by simp
qed

lemma fl_eq:
  assumes "x \<noteq> 0"
  shows "fl x =
     (if pow2 1024 \<le> \<bar>of_int (round_even (x / pow2 (max (expo x) (- 1022) - 52))) * pow2 (max (expo x) (- 1022) - 52)\<bar>
      then (if 0 < x then PosInf else NegInf)
      else Fin (of_int (round_even (x / pow2 (max (expo x) (- 1022) - 52))) * pow2 (max (expo x) (- 1022) - 52)))"
  using assms by (simp add: fl_def Let_def)

lemma fl_exact:
  assumes x: "x = of_int m * pow2 e" and m: "\<bar>m\<bar> < 2 ^ 53" and e: "- 1074 \<le> e"
    and big: "\<bar>x\<bar> < pow2 1024"
  shows "fl x = Fin x"
proof (cases "x = 0")
  case True
  then show ?thesis by (simp add: fl_def)
next
  case False
  define k where "k = expo x"
  define e' where "e' = max k (- 1022) - 52"
  have kb: "pow2 k \<le> \<bar>x\<bar>" using expo_bounds [OF False] by (simp add: k_def)
  have "\<bar>x\<bar> = of_int \<bar>m\<bar> * pow2 e" by (simp add: x abs_mult)
  also have "\<dots> < of_int (2 ^ 53) * pow2 e"
  proof -
    have "rat_of_int \<bar>m\<bar> < of_int (2 ^ 53)" using m by (simp only: of_int_less_iff)
    then show ?thesis by (intro mult_strict_right_mono) simp_all
  qed
  also have "\<dots> = pow2 (53 + e)" by (simp add: pow2_add pow2_nat)
  finally have "pow2 k < pow2 (53 + e)" using kb by linarith
  then have "k < 53 + e" by (simp only: pow2_less)
  then have le: "e' \<le> e" using e by (simp add: e'_def)
  have "x / pow2 e' = of_int m * pow2 (e - e')" by (simp add: x pow2_diff)
  also have "\<dots> = of_int (m * 2 ^ nat (e - e'))" using le by (simp add: pow2_nat)
  finally have q: "x / pow2 e' = of_int (m * 2 ^ nat (e - e'))" .
  have y: "of_int (round_even (x / pow2 e')) * pow2 e' = x"
    unfolding q round_even_of_int unfolding q [symmetric] by simp
  show ?thesis
    using False big by (simp add: fl_eq y [unfolded e'_def k_def])
qed

lemma big53: "2 ^ 53 < pow2 1024"
proof -
  have "pow2 53 < pow2 1024" by (simp only: pow2_less)
  then show ?thesis by (simp add: pow2_nat [of 53])
qed

lemma fl_int: "\<bar>k\<bar> \<le> 2 ^ 53 \<Longrightarrow> fl (of_int k) = Fin (of_int k)"
proof -
  assume a: "\<bar>k\<bar> \<le> 2 ^ 53"
  show ?thesis
  proof (cases "\<bar>k\<bar> < 2 ^ 53")
    case True
    have big: "\<bar>rat_of_int k\<bar> < pow2 1024"
    proof -
      have "\<bar>rat_of_int k\<bar> = of_int \<bar>k\<bar>" by simp
      also have "\<dots> < of_int (2 ^ 53)" using True by (simp only: of_int_less_iff)
      also have "\<dots> = pow2 53" by (simp add: pow2_nat)
      also have "\<dots> < pow2 1024" by (simp only: pow2_less)
      finally show ?thesis .
    qed
    show ?thesis by (rule fl_exact [of _ k 0]) (use True big in simp_all)
  next
    case False
    then have "\<bar>k\<bar> = 2 ^ 53" using a by simp
    then consider "k = 2 ^ 53" | "k = - (2 ^ 53)" by linarith
    then show ?thesis
    proof cases
      case 1
      show ?thesis unfolding 1
        by (rule fl_exact [of _ "2 ^ 52" 1]) (simp_all add: pow2_nat big53)
    next
      case 2
      show ?thesis unfolding 2
        by (rule fl_exact [of _ "- (2 ^ 52)" 1]) (simp_all add: pow2_nat big53)
    qed
  qed
qed

lemma fl_between:
  assumes k0: "0 \<le> k" and M53: "M \<le> 2 ^ 53" and M1: "1 \<le> M"
    and lo: "of_int k \<le> x" and hi: "x \<le> of_int M * (1 - 1 / 2 ^ 53)"
  shows "\<exists>y. fl x = Fin y \<and> of_int k \<le> y \<and> y < of_int M"
proof (cases "x = 0")
  case True
  then show ?thesis using lo M1 by (simp add: fl_def)
next
  case False
  have k0r: "0 \<le> rat_of_int k" using k0 by simp
  have xpos: "0 < x" using False lo k0r by linarith
  have Mpos: "0 < rat_of_int M" using M1 by simp
  have xM: "x < of_int M"
  proof -
    have "rat_of_int M * (1 - 1 / 2 ^ 53) < of_int M * 1"
      using Mpos by (intro mult_strict_left_mono) simp_all
    then show ?thesis using hi by simp
  qed
  define K where "K = expo x"
  define e where "e = max K (- 1022) - 52"
  have Kb: "pow2 K \<le> x" using expo_bounds [OF False] xpos by (simp add: K_def)
  have M53r: "rat_of_int M \<le> pow2 53"
  proof -
    have "rat_of_int M \<le> of_int (2 ^ 53)" using M53 by (simp only: of_int_le_iff)
    then show ?thesis by (simp add: pow2_nat)
  qed
  have "pow2 K < pow2 53" using Kb xM M53r by linarith
  then have K53: "K < 53" by (simp only: pow2_less)
  then have e0: "e \<le> 0" by (simp add: e_def)
  define S where "S = (2::int) ^ nat (- e)"
  have S: "pow2 (- e) = of_int S" using e0 by (simp add: S_def pow2_nat)
  have Spos: "0 < rat_of_int S" by (simp add: S_def)
  have inv: "pow2 e * of_int S = 1"
    using pow2_add [of e "- e"] by (simp add: S)
  have q: "x / pow2 e = x * of_int S"
    using pow2_diff [of 0 e] by (simp add: S divide_inverse)
  define r where "r = round_even (x / pow2 e)"
  have big: "pow2 (52 + e) < of_int M"
  proof (cases "- 1022 \<le> K")
    case True
    then have "52 + e = K" by (simp add: e_def)
    then show ?thesis using Kb xM by simp
  next
    case False
    then have "52 + e = - 1022" by (simp add: e_def)
    then have "pow2 (52 + e) = pow2 (- 1022)" by (simp only:)
    moreover have "pow2 (- 1022) < pow2 0" by (simp only: pow2_less)
    moreover have "1 \<le> rat_of_int M" using M1 by simp
    ultimately show ?thesis by (simp only: pow2_0)
  qed
  have half: "1 / 2 < rat_of_int M * of_int S / 2 ^ 53"
  proof -
    have "pow2 (52 + e) * of_int S = pow2 52" by (simp add: pow2_add mult.assoc inv)
    moreover have "pow2 (52 + e) * of_int S < of_int M * of_int S"
      using big Spos by (intro mult_strict_right_mono)
    ultimately have "pow2 52 < of_int M * of_int S" by simp
    then show ?thesis by (simp add: pow2_nat)
  qed
  have up: "r \<le> M * S - 1"
  proof -
    have "x * of_int S \<le> of_int M * (1 - 1 / 2 ^ 53) * of_int S"
      using hi Spos by (intro mult_right_mono) simp_all
    also have "\<dots> = of_int M * of_int S - of_int M * of_int S / 2 ^ 53"
      by (simp add: algebra_simps)
    also have "\<dots> < of_int M * of_int S - 1 / 2" using half by linarith
    finally have "x / pow2 e < of_int (M * S) - 1 / 2" by (simp add: q)
    then show ?thesis unfolding r_def by (rule round_even_lt)
  qed
  have low: "k * S \<le> r"
  proof -
    have "of_int k * of_int S \<le> x * rat_of_int S"
      using lo Spos by (intro mult_right_mono) simp_all
    then have "of_int (k * S) \<le> x / pow2 e" by (simp add: q)
    then show ?thesis unfolding r_def by (rule round_even_ge)
  qed
  define y where "y = of_int r * pow2 e"
  have y_up: "y < of_int M"
  proof -
    have "rat_of_int r \<le> of_int (M * S - 1)" using up by (simp only: of_int_le_iff)
    then have "y \<le> of_int (M * S - 1) * pow2 e"
      unfolding y_def by (intro mult_right_mono) simp_all
    also have "\<dots> = of_int M * (pow2 e * of_int S) - pow2 e" by (simp add: algebra_simps)
    also have "\<dots> = of_int M - pow2 e" by (simp add: inv)
    also have "\<dots> < of_int M" by simp
    finally show ?thesis .
  qed
  have y_lo: "of_int k \<le> y"
  proof -
    have "rat_of_int (k * S) \<le> of_int r" using low by (simp only: of_int_le_iff)
    then have "of_int (k * S) * pow2 e \<le> y"
      unfolding y_def by (intro mult_right_mono) simp_all
    moreover have "of_int (k * S) * pow2 e = of_int k * (pow2 e * of_int S)"
      by (simp add: algebra_simps)
    moreover have "rat_of_int k * (pow2 e * of_int S) = of_int k" by (simp only: inv mult_1_right)
    ultimately show ?thesis by (simp only:)
  qed
  have y0: "0 \<le> y" using y_lo k0r by linarith
  have "\<bar>y\<bar> < pow2 1024"
  proof -
    have "y < pow2 53" using y_up M53r by linarith
    moreover have "pow2 53 < pow2 1024" by (simp only: pow2_less)
    ultimately show ?thesis using y0 by simp
  qed
  then have "fl x = Fin y"
    using False by (simp add: fl_def Let_def y_def r_def e_def K_def)
  then show ?thesis using y_lo y_up by blast
qed

lemma double_below_one:
  assumes d: "is_double u" and u0: "0 \<le> u" and u1: "u < 1"
  shows "u \<le> 1 - 1 / 2 ^ 53"
proof (rule ccontr)
  assume "\<not> u \<le> 1 - 1 / 2 ^ 53"
  then have g: "1 - 1 / 2 ^ 53 < u" by simp
  then have u_half: "1 / 2 \<le> u" by simp
  have un: "u \<noteq> 0" using u_half by auto
  have h: "pow2 (- 1) = 1 / 2" by (simp add: pow2_def)
  have "expo u = - 1"
    by (rule expo_unique) (use u_half u1 u0 h in simp_all)
  then have e: "max (expo u) (- 1022) - 52 = - 53" by simp
  define r where "r = round_even (u / pow2 (- 53))"
  have p53: "pow2 (- 53) = 1 / 2 ^ 53" by (simp add: pow2_def power_int_minus_divide)
  have "fl u = (if pow2 1024 \<le> \<bar>of_int r * pow2 (- 53)\<bar>
                then (if 0 < u then PosInf else NegInf) else Fin (of_int r * pow2 (- 53)))"
    using un by (simp add: fl_def Let_def e r_def)
  then have "of_int r * pow2 (- 53) = u"
    using d by (auto simp: is_double_def split: if_splits)
  then have ur: "u * 2 ^ 53 = of_int r" by (simp add: p53)
  have "u * 2 ^ 53 < 1 * (2 ^ 53 :: rat)"
    using u1 by (intro mult_strict_right_mono) simp_all
  then have "rat_of_int r < 2 ^ 53" by (simp only: ur mult_1)
  then have "rat_of_int r < of_int (2 ^ 53)" by simp
  then have r1: "r < 2 ^ 53" by (simp only: of_int_less_iff)
  have "(1 - 1 / 2 ^ 53) * 2 ^ 53 < u * (2 ^ 53 :: rat)"
    using g by (intro mult_strict_right_mono) simp_all
  moreover have "(1 - 1 / 2 ^ 53) * 2 ^ 53 = rat_of_int (2 ^ 53 - 1)" by simp
  ultimately have "rat_of_int (2 ^ 53 - 1) < of_int r" by (simp only: ur)
  then have r2: "2 ^ 53 - 1 < r" by (simp only: of_int_less_iff)
  show False using r1 r2 by simp
qed

lemma fl_negative_int:
  assumes "d \<le> - 1"
  shows "fl (of_int d) = NegInf \<or> (\<exists>y. fl (of_int d) = Fin y \<and> y < 0)"
proof -
  define x where "x = rat_of_int d"
  have xneg: "x \<le> - 1" using assms by (simp add: x_def)
  then have xn: "x \<noteq> 0" by auto
  define K where "K = expo x"
  have Kb: "pow2 K \<le> \<bar>x\<bar>" "\<bar>x\<bar> < pow2 (K + 1)" using expo_bounds [OF xn] by (simp_all add: K_def)
  have "pow2 0 < pow2 (K + 1)" using Kb(2) xneg by simp
  then have K0: "0 \<le> K" by (simp only: pow2_less)
  then have e: "max K (- 1022) - 52 = K - 52" by simp
  have "pow2 52 = pow2 K / pow2 (K - 52)" using pow2_diff [of K "K - 52"] by simp
  also have "\<dots> \<le> \<bar>x\<bar> / pow2 (K - 52)" using Kb(1) by (intro divide_right_mono) simp_all
  finally have "x / pow2 (K - 52) \<le> - pow2 52" using xneg by (simp add: abs_if split: if_splits)
  then have "x / pow2 (K - 52) \<le> of_int (- (2 ^ 52))" by (simp add: pow2_nat)
  then have r: "round_even (x / pow2 (K - 52)) \<le> - (2 ^ 52)" by (rule round_even_le)
  then have "rat_of_int (round_even (x / pow2 (K - 52))) < 0" by simp
  then have y: "of_int (round_even (x / pow2 (K - 52))) * pow2 (K - 52) < 0"
    by (simp add: mult_less_0_iff)
  have "fl x = (if pow2 1024 \<le> \<bar>of_int (round_even (x / pow2 (K - 52))) * pow2 (K - 52)\<bar>
                then NegInf else Fin (of_int (round_even (x / pow2 (K - 52))) * pow2 (K - 52)))"
    using xn xneg by (simp add: fl_def Let_def K_def [symmetric] e)
  then show ?thesis using y unfolding x_def by auto
qed

lemma fl_nonneg:
  assumes "0 \<le> x"
  shows "fl x = PosInf \<or> (\<exists>y. fl x = Fin y \<and> 0 \<le> y)"
proof (cases "x = 0")
  case True
  then show ?thesis by (simp add: fl_def)
next
  case False
  then have xpos: "0 < x" using assms by simp
  define e where "e = max (expo x) (- 1022) - 52"
  have "0 \<le> x / pow2 e" using assms by simp
  then have "of_int 0 \<le> x / pow2 e" by simp
  then have "0 \<le> round_even (x / pow2 e)" by (rule round_even_ge)
  then have "0 \<le> rat_of_int (round_even (x / pow2 e)) * pow2 e" by simp
  then show ?thesis using False xpos by (simp add: fl_def Let_def e_def)
qed

lemma pow2_m53: "pow2 (- 53) = 1 / 2 ^ 53"
  by (simp add: pow2_def power_int_minus_divide)

lemma cancel_pos: "0 < (c::rat) \<Longrightarrow> a * c \<le> b * c \<Longrightarrow> a \<le> b"
  by (simp add: mult_le_cancel_right)

lemma fl_round:
  assumes lo: "pow2 K \<le> \<bar>x\<bar>" and hi: "\<bar>x\<bar> < pow2 (K + 1)" and K: "- 1022 \<le> K"
    and e: "e = K - 52" and r: "round_even (x / pow2 e) = r"
    and big: "\<bar>of_int r * pow2 e\<bar> < pow2 1024"
  shows "fl x = Fin (of_int r * pow2 e)"
proof -
  have ex: "expo x = K" using lo hi by (rule expo_unique)
  have "0 < \<bar>x\<bar>" using lo pow2_pos [of K] by linarith
  then have x: "x \<noteq> 0" by simp
  have m: "max K (- 1022) - 52 = e" using K e by simp
  show ?thesis unfolding fl_eq [OF x] ex m r using big by simp
qed

lemma fl_tie_2_53: "fl (of_int (2 ^ 53 + 1)) = Fin (of_int (2 ^ 53))"
proof -
  have p53: "pow2 53 = 9007199254740992" by (simp add: pow2_nat)
  have p54: "pow2 54 = 18014398509481984" by (simp add: pow2_nat)
  have p1: "pow2 1 = 2" by (simp add: pow2_nat)
  have r: "round_even (9007199254740993 / pow2 1) = 4503599627370496"
    unfolding p1 by code_simp
  have big: "\<bar>rat_of_int 4503599627370496 * pow2 1\<bar> < pow2 1024"
    unfolding p1 using big53 by simp
  have "fl 9007199254740993 = Fin (of_int 4503599627370496 * pow2 1)"
    by (rule fl_round [where K = 53, OF _ _ _ _ r big]) (simp_all add: p53 p54)
  then show ?thesis unfolding p1 by simp
qed

lemma fl_2_53_2: "fl (of_int (2 ^ 53 + 2)) = Fin (of_int (2 ^ 53 + 2))"
proof -
  have "pow2 54 < pow2 1024" by (simp only: pow2_less)
  then have "\<bar>9007199254740994 :: rat\<bar> < pow2 1024" by (simp add: pow2_nat [of 54])
  moreover have "(9007199254740994 :: rat) = of_int 4503599627370497 * pow2 1"
    by (simp add: pow2_nat)
  ultimately have "fl 9007199254740994 = Fin 9007199254740994"
    by (intro fl_exact [of _ 4503599627370497 1]) simp_all
  then show ?thesis by simp
qed

subsection \<open>generateUniqueNumbersWithFixed\<close>

lemma num_eq_iff [simp]: "num a = num b \<longleftrightarrow> a = b"
  by (simp add: num_def)

lemma inj_num: "inj num"
  by (rule injI) simp

lemma js_add_num: "\<bar>a + b\<bar> \<le> 2 ^ 53 \<Longrightarrow> js_add (num a) (num b) = num (a + b)"
  using fl_int [of "a + b"] by (simp add: js_add_def num_def)

lemma js_sub_num: "\<bar>a - b\<bar> \<le> 2 ^ 53 \<Longrightarrow> js_sub (num a) (num b) = num (a - b)"
  using fl_int [of "a - b"] by (simp add: js_sub_def js_add_def num_def)

lemma range_size:
  assumes "mn \<le> mx" "mx - mn + 1 \<le> 2 ^ 53"
  shows "js_add (js_sub (num mx) (num mn)) (Fin 1) = num (mx - mn + 1)"
proof -
  have "js_sub (num mx) (num mn) = num (mx - mn)" using assms by (intro js_sub_num) simp
  moreover have "js_add (num (mx - mn)) (num 1) = num (mx - mn + 1)"
    using assms by (intro js_add_num) simp
  moreover have "Fin 1 = num 1" by (simp add: num_def)
  ultimately show ?thesis by simp
qed

lemma randInt_floor:
  assumes N: "js_add (js_sub (num mx) (num mn)) (Fin 1) = num N"
    and y: "fl (u * of_int N) = Fin y" and k: "\<lfloor>y\<rfloor> = k" and r: "\<bar>k + mn\<bar> \<le> 2 ^ 53"
  shows "randInt u (num mn) (num mx) = num (k + mn)"
proof -
  have "js_mul (Fin u) (num N) = Fin y" using y by (simp add: js_mul_def num_def)
  then have "Math_floor (js_mul (Fin u) (num N)) = num k" using k by (simp add: num_def)
  then show ?thesis using js_add_num [OF r] by (simp add: randInt_def N)
qed

lemma randInt_num:
  assumes u: "0 \<le> u" "u < 1" "is_double u" and le: "mn \<le> mx"
    and mn: "\<bar>mn\<bar> \<le> 2 ^ 53" and mx: "\<bar>mx\<bar> \<le> 2 ^ 53" and sz: "mx - mn + 1 \<le> 2 ^ 53"
  shows "\<exists>k. randInt u (num mn) (num mx) = num k \<and> mn \<le> k \<and> k \<le> mx"
proof -
  define N where "N = mx - mn + 1"
  have N: "js_add (js_sub (num mx) (num mn)) (Fin 1) = num N"
    unfolding N_def using le sz by (rule range_size)
  have N1: "1 \<le> N" using le by (simp add: N_def)
  have N53: "N \<le> 2 ^ 53" using sz by (simp add: N_def)
  have Nr: "0 \<le> rat_of_int N" using N1 by simp
  have lo: "rat_of_int 0 \<le> u * of_int N" using u(1) Nr by simp
  have "u \<le> 1 - 1 / 2 ^ 53" using u(3) u(1) u(2) by (rule double_below_one)
  then have "u * of_int N \<le> (1 - 1 / 2 ^ 53) * rat_of_int N"
    using Nr by (rule mult_right_mono)
  then have hi: "u * of_int N \<le> rat_of_int N * (1 - 1 / 2 ^ 53)" by (simp only: mult.commute)
  obtain y where y: "fl (u * of_int N) = Fin y" "of_int 0 \<le> y" "y < of_int N"
    using fl_between [OF _ N53 N1 lo hi] by auto
  define k where "k = \<lfloor>y\<rfloor>"
  have k0: "0 \<le> k" using y(2) by (simp add: k_def)
  have kN: "k < N" unfolding k_def floor_less_iff using y(3) .
  have "\<bar>k + mn\<bar> \<le> 2 ^ 53" using k0 kN mn mx by (simp add: N_def)
  then have "randInt u (num mn) (num mx) = num (k + mn)"
    using N y(1) k_def [symmetric] by (intro randInt_floor)
  moreover have "mn \<le> k + mn" "k + mn \<le> mx" using k0 kN by (simp_all add: N_def)
  ultimately show ?thesis by blast
qed

lemma compare_num: "js_lt (js_sub (num y) (num x)) (Fin 0) \<longleftrightarrow> y < x"
proof -
  have s: "js_sub (num y) (num x) = fl (of_int (y - x))"
    by (simp add: js_sub_def js_add_def num_def)
  show ?thesis
  proof (cases "y < x")
    case True
    then have "y - x \<le> - 1" by simp
    from fl_negative_int [OF this] show ?thesis using True by (auto simp: s)
  next
    case False
    then have "0 \<le> rat_of_int (y - x)" by simp
    from fl_nonneg [OF this] show ?thesis using False by (auto simp: s)
  qed
qed

lemma sort_insert_num: "sort_insert (num x) (map num ys) = map num (insort x ys)"
  by (induction ys) (auto simp: compare_num)

lemma sort_ascending_num: "sort_ascending (map num xs) = map num (sort xs)"
proof -
  have "foldr sort_insert (map num xs) [] = map num (foldr insort xs [])"
    by (induction xs) (simp_all add: sort_insert_num)
  then show ?thesis by (simp add: sort_ascending_def sort_key_def)
qed

lemma size_lt_num [simp]: "js_lt (set_size s) (num tot) \<longleftrightarrow> int (length s) < tot"
proof -
  have "rat_of_nat (length s) = rat_of_int (int (length s))" by simp
  then show ?thesis unfolding set_size_def num_def js_lt.simps by (simp only: of_int_less_iff)
qed

lemma set_set_add: "set (set_add s x) = insert x (set s)"
  by (auto simp: set_add_def)

lemma distinct_set_add: "distinct s \<Longrightarrow> distinct (set_add s x)"
  by (simp add: set_add_def)

lemma length_set_add: "length (set_add s x) \<le> Suc (length s)"
  by (simp add: set_add_def)

lemma foldl_set_add_id:
  "distinct xs \<Longrightarrow> set xs \<inter> set acc = {} \<Longrightarrow> foldl set_add acc xs = acc @ xs"
  by (induction xs arbitrary: acc) (auto simp: set_add_def)

lemma new_Set_distinct_id: "distinct xs \<Longrightarrow> new_Set xs = xs"
  using foldl_set_add_id [of xs "[]"] by (simp add: new_Set_def)

lemma fill_loop_done:
  "tot \<le> int (length s) \<Longrightarrow> fill_loop mn mx (num tot) s us = Some (s, us)"
  by (cases us) auto

lemma fill_loop_sound:
  "fill_loop mn mx (num tot) s us = Some (t, rest) \<Longrightarrow> distinct s \<Longrightarrow> int (length s) \<le> tot \<Longrightarrow>
     distinct t \<and> int (length t) = tot \<and> set s \<subseteq> set t
     \<and> set t \<subseteq> set s \<union> (\<lambda>u. randInt u mn mx) ` set us"
proof (induction us arbitrary: s)
  case Nil
  then show ?case by (auto split: if_splits)
next
  case (Cons u us)
  show ?case
  proof (cases "int (length s) < tot")
    case True
    let ?s = "set_add s (randInt u mn mx)"
    have run: "fill_loop mn mx (num tot) ?s us = Some (t, rest)" using Cons.prems(1) True by simp
    have d: "distinct ?s" using Cons.prems(2) by (rule distinct_set_add)
    have l: "int (length ?s) \<le> tot" using True length_set_add [of s "randInt u mn mx"] by linarith
    from Cons.IH [OF run d l] show ?thesis by (auto simp: set_set_add)
  next
    case False
    then show ?thesis using Cons.prems by auto
  qed
qed

lemma fill_loop_returns:
  "distinct s \<Longrightarrow> tot \<le> int (card (set s \<union> (\<lambda>u. randInt u mn mx) ` set us)) \<Longrightarrow>
     \<exists>t rest. fill_loop mn mx (num tot) s us = Some (t, rest)"
proof (induction us arbitrary: s)
  case Nil
  then show ?case by (simp add: distinct_card)
next
  case (Cons u us)
  show ?case
  proof (cases "int (length s) < tot")
    case True
    let ?s = "set_add s (randInt u mn mx)"
    have d: "distinct ?s" using Cons.prems(1) by (rule distinct_set_add)
    have "set ?s \<union> (\<lambda>u. randInt u mn mx) ` set us
            = set s \<union> (\<lambda>u. randInt u mn mx) ` set (u # us)"
      by (auto simp: set_set_add)
    then have "tot \<le> int (card (set ?s \<union> (\<lambda>u. randInt u mn mx) ` set us))"
      using Cons.prems(2) by simp
    from Cons.IH [OF d this] show ?thesis using True by simp
  next
    case False
    then show ?thesis by simp
  qed
qed

lemma list_of_nums:
  "\<forall>v\<in>set t. \<exists>k. v = num k \<and> P k \<Longrightarrow> \<exists>ks. t = map num ks \<and> (\<forall>k\<in>set ks. P k)"
proof (induction t)
  case Nil
  then show ?case by simp
next
  case (Cons v t)
  then obtain ks where ks: "t = map num ks" "\<forall>k\<in>set ks. P k" by auto
  obtain k where k: "v = num k" "P k" using Cons.prems by auto
  have "v # t = map num (k # ks) \<and> (\<forall>j\<in>set (k # ks). P j)" using ks k by simp
  then show ?case by (rule exI)
qed

lemma randInt_hit:
  assumes le: "mn \<le> mx" and mn: "\<bar>mn\<bar> \<le> 2 ^ 53" and mx: "\<bar>mx\<bar> \<le> 2 ^ 53"
    and sz: "mx - mn + 1 \<le> 2 ^ 52" and k0: "0 \<le> k" and kN: "k < mx - mn + 1"
  shows "\<exists>u. 0 \<le> u \<and> u < 1 \<and> is_double u \<and> randInt u (num mn) (num mx) = num (k + mn)"
proof -
  define N where "N = mx - mn + 1"
  define P where "P = (2::rat) ^ 53"
  define q where "q = rat_of_int k * P / rat_of_int N"
  define j where "j = \<lceil>q\<rceil>"
  define u where "u = rat_of_int j / P"
  have Ppos: "0 < P" by (simp add: P_def)
  have P1: "1 \<le> P" by (simp add: P_def)
  have N1: "1 \<le> N" using k0 kN by (simp add: N_def)
  have Npos: "0 < rat_of_int N" using N1 by simp
  have N52: "rat_of_int N \<le> P / 2"
  proof -
    have "rat_of_int N \<le> of_int (2 ^ 52)" using sz unfolding N_def by (simp only: of_int_le_iff)
    then show ?thesis by (simp add: P_def)
  qed
  have kr: "rat_of_int k + 1 \<le> rat_of_int N"
  proof -
    have "k + 1 \<le> N" using kN by (simp add: N_def)
    then have "rat_of_int (k + 1) \<le> of_int N" by (simp only: of_int_le_iff)
    then show ?thesis by simp
  qed
  have k0r: "0 \<le> rat_of_int k" using k0 by simp
  have qN: "q * of_int N = of_int k * P" using Npos by (simp add: q_def)
  have q0: "0 \<le> q" unfolding q_def using k0r Ppos Npos by simp
  have qP: "q \<le> P - 1"
  proof -
    have "of_int k * P \<le> (of_int N - 1) * P" using kr Ppos by (intro mult_right_mono) simp_all
    also have "\<dots> = of_int N * P - P" by (simp add: algebra_simps)
    also have "\<dots> \<le> of_int N * P - of_int N" using N52 Ppos by simp
    also have "\<dots> = (P - 1) * of_int N" by (simp add: algebra_simps)
    finally have "q * of_int N \<le> (P - 1) * of_int N" by (simp only: qN)
    then show ?thesis by (rule cancel_pos [OF Npos])
  qed
  have j0: "0 \<le> j" using q0 by (simp add: j_def)
  have jq: "q \<le> of_int j" "rat_of_int j < q + 1" unfolding j_def by linarith+
  have jP: "rat_of_int j < P" using jq(2) qP by linarith
  have j53: "\<bar>j\<bar> < 2 ^ 53"
  proof -
    have "rat_of_int j < of_int (2 ^ 53)" using jP by (simp add: P_def)
    then have "j < 2 ^ 53" by (simp only: of_int_less_iff)
    then show ?thesis using j0 by simp
  qed
  have u0: "0 \<le> u" using j0 Ppos by (simp add: u_def)
  have u1: "u < 1" using jP Ppos by (simp add: u_def)
  have dbl: "is_double u"
  proof -
    have "u = of_int j * pow2 (- 53)" by (simp add: u_def pow2_m53 P_def)
    moreover have "\<bar>u\<bar> < pow2 1024"
    proof -
      have "pow2 0 < pow2 1024" by (simp only: pow2_less)
      then show ?thesis using u0 u1 by simp
    qed
    ultimately have "fl u = Fin u" using j53 by (intro fl_exact [of u j "- 53"]) simp_all
    then show ?thesis by (simp add: is_double_def)
  qed
  define x where "x = u * of_int N"
  have xP: "x * P = of_int j * of_int N" using Ppos by (simp add: x_def u_def)
  have lo: "rat_of_int k \<le> x"
  proof -
    have "q * of_int N \<le> of_int j * of_int N" using jq(1) Npos by (intro mult_right_mono) simp_all
    then have "of_int k * P \<le> x * P" by (simp only: qN xP)
    then show ?thesis by (rule cancel_pos [OF Ppos])
  qed
  have hi: "x \<le> rat_of_int (k + 1) * (1 - 1 / 2 ^ 53)"
  proof -
    have "of_int j * of_int N \<le> (q + 1) * rat_of_int N"
      using jq(2) Npos by (intro mult_right_mono) simp_all
    also have "\<dots> = of_int k * P + of_int N" by (simp add: algebra_simps qN)
    also have "\<dots> \<le> of_int k * P + P - of_int N" using N52 by simp
    also have "\<dots> \<le> of_int k * P + P - (of_int k + 1)" using kr by simp
    also have "\<dots> = (of_int k + 1) * (P - 1)" by (simp add: algebra_simps)
    also have "\<dots> = (of_int k + 1) * (1 - 1 / P) * P" using Ppos by (simp add: field_simps)
    finally have "x * P \<le> (of_int k + 1) * (1 - 1 / P) * P" by (simp only: xP)
    then have "x \<le> (of_int k + 1) * (1 - 1 / P)" by (rule cancel_pos [OF Ppos])
    then show ?thesis by (simp add: P_def)
  qed
  have k53: "k + 1 \<le> 2 ^ 53" using kN sz by simp
  have k1: "1 \<le> k + 1" using k0 by simp
  obtain y where y: "fl x = Fin y" "of_int k \<le> y" "y < of_int (k + 1)"
    using fl_between [OF k0 k53 k1 lo hi] by auto
  have fy: "\<lfloor>y\<rfloor> = k" using y(2) y(3) by (intro floor_unique) simp_all
  have N: "js_add (js_sub (num mx) (num mn)) (Fin 1) = num N"
    unfolding N_def using le sz by (intro range_size) simp_all
  have r: "\<bar>k + mn\<bar> \<le> 2 ^ 53" using k0 kN mn mx by simp
  have "randInt u (num mn) (num mx) = num (k + mn)"
    using N y(1) [unfolded x_def] fy r by (rule randInt_floor)
  then show ?thesis using u0 u1 dbl by blast
qed

lemma draws_exist:
  assumes le: "int (length fixed) \<le> tot" and sz: "tot \<le> mx - mn + 1"
    and mn: "\<bar>mn\<bar> \<le> 2 ^ 53" and mx: "\<bar>mx\<bar> \<le> 2 ^ 53" and N52: "mx - mn + 1 \<le> 2 ^ 52"
  shows "\<exists>us. valid_draws us \<and> enough_draws (num mn) (num mx) tot (map num fixed) us"
proof (cases "mn \<le> mx")
  case False
  then have "tot \<le> 0" using sz by simp
  then show ?thesis by (intro exI[of _ "[]"]) (simp add: valid_draws_def enough_draws_def)
next
  case True
  define n where "n = mx - mn + 1"
  have "\<forall>k. \<exists>u. k < nat n \<longrightarrow>
          0 \<le> u \<and> u < 1 \<and> is_double u \<and> randInt u (num mn) (num mx) = num (int k + mn)"
  proof
    fix k :: nat
    show "\<exists>u. k < nat n \<longrightarrow>
          0 \<le> u \<and> u < 1 \<and> is_double u \<and> randInt u (num mn) (num mx) = num (int k + mn)"
    proof (cases "k < nat n")
      case False
      then show ?thesis by simp
    next
      case k: True
      then have "int k < mx - mn + 1" by (simp add: n_def)
      from randInt_hit [OF True mn mx N52 _ this] show ?thesis by auto
    qed
  qed
  then obtain f where f: "\<And>k. k < nat n \<Longrightarrow>
          0 \<le> f k \<and> f k < 1 \<and> is_double (f k) \<and> randInt (f k) (num mn) (num mx) = num (int k + mn)"
    using choice [of "\<lambda>k u. k < nat n \<longrightarrow>
          0 \<le> u \<and> u < 1 \<and> is_double u \<and> randInt u (num mn) (num mx) = num (int k + mn)"]
    by blast
  define us where "us = map f [0..<nat n]"
  have set_us: "set us = f ` {0..<nat n}" by (simp add: us_def)
  have v: "valid_draws us"
    unfolding valid_draws_def list_all_iff
  proof
    fix u assume "u \<in> set us"
    then obtain k where k: "k < nat n" "u = f k" unfolding set_us by auto
    show "0 \<le> u \<and> u < 1 \<and> is_double u" unfolding k(2) using f [OF k(1)] by simp
  qed
  have "(\<lambda>u. randInt u (num mn) (num mx)) ` set us = (\<lambda>k. num (int k + mn)) ` {0..<nat n}"
    unfolding set_us image_image by (rule image_cong) (simp_all add: f)
  also have "\<dots> = num ` ((\<lambda>k. int k + mn) ` {0..<nat n})" by (simp only: image_image)
  also have "(\<lambda>k. int k + mn) ` {0..<nat n} = {mn..mx}"
  proof (rule set_eqI)
    fix x
    show "x \<in> (\<lambda>k. int k + mn) ` {0..<nat n} \<longleftrightarrow> x \<in> {mn..mx}"
    proof
      assume "x \<in> (\<lambda>k. int k + mn) ` {0..<nat n}"
      then obtain k where "k < nat n" "x = int k + mn" by auto
      then show "x \<in> {mn..mx}" unfolding n_def by simp
    next
      assume x: "x \<in> {mn..mx}"
      then have "nat (x - mn) \<in> {0..<nat n}" "x = int (nat (x - mn)) + mn"
        unfolding n_def by simp_all
      then show "x \<in> (\<lambda>k. int k + mn) ` {0..<nat n}" by (rule rev_image_eqI)
    qed
  qed
  finally have img: "(\<lambda>u. randInt u (num mn) (num mx)) ` set us = num ` {mn..mx}" .
  have "card (num ` {mn..mx}) = card {mn..mx}"
    by (intro card_image inj_onI) simp
  moreover have "card (num ` {mn..mx}) \<le> card (set (map num fixed) \<union> num ` {mn..mx})"
    by (rule card_mono) simp_all
  ultimately have "tot \<le> int (card (set (map num fixed) \<union> num ` {mn..mx}))"
    using sz True by simp
  then have "enough_draws (num mn) (num mx) tot (map num fixed) us"
    unfolding enough_draws_def img .
  with v show ?thesis by blast
qed

lemma randInt_steps:
  assumes N: "js_add (js_sub mx mn) (Fin 1) = num N"
    and y: "fl (u * of_int N) = Fin y" and k: "\<lfloor>y\<rfloor> = k"
  shows "randInt u mn mx = js_add (num k) mn"
proof -
  have "js_mul (Fin u) (num N) = Fin y" using y by (simp add: js_mul_def num_def)
  then have "Math_floor (js_mul (Fin u) (num N)) = num k" using k by (simp add: num_def)
  then show ?thesis unfolding randInt_def N by (simp only:)
qed

lemma randInt_beyond_2_53:
  assumes "0 \<le> u" "u < 1" "is_double u"
  shows "randInt u (num (2 ^ 53)) (num (2 ^ 53 + 2)) \<in> {num (2 ^ 53), num (2 ^ 53 + 2)}"
proof -
  define A :: int where "A = 2 ^ 53"
  define B :: int where "B = 2 ^ 53 + 2"
  have a0: "js_add (num 0) (num A) = num A"
    using js_add_num [of 0 A] by (simp add: A_def)
  have a1: "js_add (num 1) (num A) = num A"
    using fl_tie_2_53 by (simp add: js_add_def num_def A_def)
  have a2: "js_add (num 2) (num A) = num B"
    using fl_2_53_2 by (simp add: js_add_def num_def A_def B_def)
  have N: "js_add (js_sub (num B) (num A)) (Fin 1) = num 3"
    using range_size [of A B] by (simp add: A_def B_def)
  have lo: "rat_of_int 0 \<le> u * of_int 3" using assms(1) by simp
  have "u \<le> 1 - 1 / 2 ^ 53" using assms(3) assms(1) assms(2) by (rule double_below_one)
  then have hi: "u * of_int 3 \<le> rat_of_int 3 * (1 - 1 / 2 ^ 53)" by simp
  obtain y where y: "fl (u * of_int 3) = Fin y" "of_int 0 \<le> y" "y < of_int 3"
    using fl_between [OF _ _ _ lo hi] by auto
  define k where "k = \<lfloor>y\<rfloor>"
  have k0: "0 \<le> k" using y(2) by (simp add: k_def)
  have k3: "k < 3" unfolding k_def floor_less_iff using y(3) .
  have r: "randInt u (num A) (num B) = js_add (num k) (num A)"
    using N y(1) k_def [symmetric] by (rule randInt_steps)
  have "k = 0 \<or> k = 1 \<or> k = 2" using k0 k3 by linarith
  then have "randInt u (num A) (num B) \<in> {num A, num B}"
    unfolding r using a0 a1 a2 by auto
  then show ?thesis unfolding A_def B_def .
qed

lemma fill_loop_stuck:
  assumes two: "\<And>u. 0 \<le> u \<Longrightarrow> u < 1 \<Longrightarrow> is_double u \<Longrightarrow> randInt u mn mx \<in> {a, b}"
  shows "valid_draws us \<Longrightarrow> distinct s \<Longrightarrow> set s \<subseteq> {a, b} \<Longrightarrow>
     fill_loop mn mx (num 3) s us = None"
proof (induction us arbitrary: s)
  case Nil
  have "card (set s) \<le> card {a, b}" using Nil.prems(3) by (intro card_mono) simp_all
  also have "\<dots> \<le> 2" by (simp add: card_insert_if)
  finally have "length s \<le> 2" using Nil.prems(2) by (simp add: distinct_card)
  then show ?case by simp
next
  case (Cons u us)
  have "card (set s) \<le> card {a, b}" using Cons.prems(3) by (intro card_mono) simp_all
  also have "\<dots> \<le> 2" by (simp add: card_insert_if)
  finally have len: "length s \<le> 2" using Cons.prems(2) by (simp add: distinct_card)
  let ?x = "randInt u mn mx"
  have u: "0 \<le> u" "u < 1" "is_double u" and us: "valid_draws us"
    using Cons.prems(1) by (simp_all add: valid_draws_def)
  have x: "?x \<in> {a, b}" using u by (rule two)
  have d: "distinct (set_add s ?x)" using Cons.prems(2) by (rule distinct_set_add)
  have sub: "set (set_add s ?x) \<subseteq> {a, b}"
    using x Cons.prems(3) by (simp add: set_set_add)
  have "fill_loop mn mx (num 3) (set_add s ?x) us = None"
    using us d sub by (rule Cons.IH)
  then show ?case using len by simp
qed

lemma randInt_dyadic:
  assumes le: "mn \<le> mx" and mn: "\<bar>mn\<bar> \<le> 2 ^ 53" and mx: "\<bar>mx\<bar> \<le> 2 ^ 53"
    and sz: "mx - mn + 1 \<le> 2 ^ 53"
    and m0: "0 \<le> m" and m1: "m < 2 ^ n" and mN: "m * (mx - mn + 1) < 2 ^ 53" and n: "n \<le> 1074"
  shows "randInt (of_int m / 2 ^ n) (num mn) (num mx) = num (m * (mx - mn + 1) div 2 ^ n + mn)"
proof -
  define N where "N = mx - mn + 1"
  define k where "k = m * N div 2 ^ n"
  have N1: "1 \<le> N" using le by (simp add: N_def)
  have NN: "js_add (js_sub (num mx) (num mn)) (Fin 1) = num N"
    unfolding N_def using le sz by (rule range_size)
  have x: "of_int m / 2 ^ n * rat_of_int N = of_int (m * N) * pow2 (- int n)"
    by (simp add: pow2_def power_int_minus_divide)
  have a: "\<bar>m * N\<bar> < 2 ^ 53" using mN m0 N1 by (simp add: N_def abs_mult)
  have b: "\<bar>rat_of_int (m * N) * pow2 (- int n)\<bar> < pow2 1024"
  proof -
    have "\<bar>rat_of_int (m * N) * pow2 (- int n)\<bar> = rat_of_int \<bar>m * N\<bar> * pow2 (- int n)"
      by (simp add: abs_mult)
    also have "\<dots> \<le> rat_of_int \<bar>m * N\<bar> * pow2 0"
    proof -
      have "pow2 (- int n) \<le> pow2 0" by (simp only: pow2_le)
      moreover have "0 \<le> rat_of_int \<bar>m * N\<bar>" by simp
      ultimately show ?thesis by (rule mult_left_mono)
    qed
    also have "\<dots> < of_int (2 ^ 53)" using a by (simp only: pow2_0 mult_1_right of_int_less_iff)
    also have "\<dots> < pow2 1024" using big53 by simp
    finally show ?thesis .
  qed
  have y: "fl (of_int m / 2 ^ n * rat_of_int N) = Fin (of_int (m * N) / 2 ^ n)"
  proof -
    have "fl (rat_of_int (m * N) * pow2 (- int n)) = Fin (rat_of_int (m * N) * pow2 (- int n))"
      using a n b by (intro fl_exact [of _ "m * N" "- int n"]) simp_all
    then show ?thesis unfolding x by (simp add: pow2_def power_int_minus_divide)
  qed
  have f: "\<lfloor>rat_of_int (m * N) / 2 ^ n\<rfloor> = k"
  proof -
    have "\<lfloor>rat_of_int (m * N) / rat_of_int (2 ^ n)\<rfloor> = m * N div 2 ^ n"
      by (rule floor_divide_of_int_eq)
    then show ?thesis by (simp add: k_def)
  qed
  have k0: "0 \<le> k" using m0 N1 by (simp add: k_def pos_imp_zdiv_nonneg_iff)
  have kN: "k < N"
  proof -
    have "m * N < 2 ^ n * N" using m1 N1 by simp
    then have "rat_of_int (m * N) < of_int (2 ^ n * N)" by (simp only: of_int_less_iff)
    then have "rat_of_int (m * N) < of_int N * 2 ^ n" by (simp add: mult.commute)
    then have "rat_of_int (m * N) / 2 ^ n < of_int N" by (simp add: pos_divide_less_eq)
    then have "\<lfloor>rat_of_int (m * N) / 2 ^ n\<rfloor> < N" by (simp only: floor_less_iff)
    then show ?thesis by (simp only: f)
  qed
  have r: "\<bar>k + mn\<bar> \<le> 2 ^ 53" using k0 kN mn mx by (simp add: N_def)
  have "randInt (of_int m / 2 ^ n) (num mn) (num mx) = js_add (num k) (num mn)"
    using NN y f by (rule randInt_steps)
  then show ?thesis using js_add_num [OF r] by (simp add: k_def N_def)
qed

text \<open>
  The product rounds: on this draw the exact product lies just below \<open>17\<close>, the double
  product is \<open>17\<close>, and \<open>randInt(1, 37)\<close> is \<open>18\<close>, still within the range.
\<close>

lemma randInt_rounds_up:
  "randInt (2069221450413471 / 2 ^ 52) (num 1) (num 37) = num 18"
proof -
  have N: "js_add (js_sub (num 37) (num 1)) (Fin 1) = num 37"
    using range_size [of 1 37] by simp
  have p4: "pow2 4 = 16" by (simp add: pow2_nat)
  have p5: "pow2 5 = 32" by (simp add: pow2_nat)
  have pe: "pow2 (- 48) = 1 / 281474976710656" by (simp add: pow2_def power_int_minus_divide)
  have r: "round_even (2069221450413471 / 2 ^ 52 * rat_of_int 37 / pow2 (- 48)) = 4785074604081152"
    unfolding pe by code_simp
  have big: "\<bar>rat_of_int 4785074604081152 * pow2 (- 48)\<bar> < pow2 1024"
  proof -
    have "pow2 5 < pow2 1024" by (simp only: pow2_less)
    then show ?thesis by (simp add: pe p5)
  qed
  have "fl (2069221450413471 / 2 ^ 52 * rat_of_int 37) = Fin (of_int 4785074604081152 * pow2 (- 48))"
    by (rule fl_round [where K = 4, OF _ _ _ _ r big]) (simp_all add: p4 p5)
  then have y: "fl (2069221450413471 / 2 ^ 52 * rat_of_int 37) = Fin 17" by (simp add: pe)
  have f: "\<lfloor>17 :: rat\<rfloor> = 17" by simp
  have "randInt (2069221450413471 / 2 ^ 52) (num 1) (num 37) = js_add (num 17) (num 1)"
    using N y f by (rule randInt_steps)
  then show ?thesis using js_add_num [of 17 1] by simp
qed




subsection \<open>Session manager\<close>

lemmas session_defs =
  do_fetch_def record_effect_def navigate_def removeToken_def removeUser_def setUser_def

text \<open>
  Claim C3. Whatever the URL and the options (method, headers, body), when \<open>fetch\<close>
  resolves with status 401 \<open>fetchWithAuth\<close> throws \<open>Unauthorized\<close> instead of
  returning the response, the token and the profile are gone from storage and nothing
  else in storage has changed, the page is sent to \<open>login.html\<close>, and after the
  request itself the call did exactly three things, each once: remove the token,
  remove the profile, navigate.
\<close>

theorem fetchWithAuth_unauthorized:
  "net u (decorate (getToken s) opts) = Resolved res \<and> status res = 401 \<longrightarrow>
     fst (fetchWithAuth net u opts s) = Inl (Error ''Unauthorized'')
     \<and> storage (snd (fetchWithAuth net u opts s))
         = (storage s)(''access_token'' := None, ''user'' := None)
     \<and> href (snd (fetchWithAuth net u opts s)) = ''login.html''
     \<and> effects (snd (fetchWithAuth net u opts s))
         = effects s @ [Fetch u (decorate (getToken s) opts), RemoveItem ''access_token'',
                        RemoveItem ''user'', Navigate ''login.html'']"
  by (simp add: fetchWithAuth_def session_defs)

text \<open>A POST with a body, answered 401, in a signed-in browser.\<close>

theorem fetchWithAuth_unauthorized_witness:
  "fst (fetchWithAuth (respond \<lparr>status = 401, json_body = Inr JNull\<rparr>) (''/engine/prediction'', [])
          \<lparr>opt_method = Some ''POST'', opt_headers = None, opt_body = Some (StringBody ''{}'')\<rparr>
          signed_in) = Inl (Error ''Unauthorized'')
   \<and> storage (snd (fetchWithAuth (respond \<lparr>status = 401, json_body = Inr JNull\<rparr>)
          (''/engine/prediction'', [])
          \<lparr>opt_method = Some ''POST'', opt_headers = None, opt_body = Some (StringBody ''{}'')\<rparr>
          signed_in)) = Map.empty
   \<and> href (snd (fetchWithAuth (respond \<lparr>status = 401, json_body = Inr JNull\<rparr>)
          (''/engine/prediction'', [])
          \<lparr>opt_method = Some ''POST'', opt_headers = None, opt_body = Some (StringBody ''{}'')\<rparr>
          signed_in)) = ''login.html''"
proof -
  let ?res = "\<lparr>status = 401, json_body = Inr JNull\<rparr>"
  let ?opts = "\<lparr>opt_method = Some ''POST'', opt_headers = None, opt_body = Some (StringBody ''{}'')\<rparr>"
  have pre: "respond ?res (''/engine/prediction'', []) (decorate (getToken signed_in) ?opts)
               = Resolved ?res \<and> status ?res = 401"
    by (simp add: respond_def)
  have st: "(storage signed_in)(''access_token'' := None, ''user'' := None) = Map.empty"
    by (auto simp: signed_in_def)
  show ?thesis
    using fetchWithAuth_unauthorized [of "respond ?res" "(''/engine/prediction'', [])" signed_in ?opts ?res]
      pre st
    by simp
qed

text \<open>
  Claim C10. When \<open>fetch\<close> rejects, or resolves with any status other than 401
  (403 and the other error statuses included), \<open>fetchWithAuth\<close> leaves storage and
  the location as they were: the request is all it did, and the caller gets the
  response (or the rejection) as it came.
\<close>

theorem fetchWithAuth_frame:
  "\<not> (\<exists>res. net u (decorate (getToken s) opts) = Resolved res \<and> status res = 401) \<longrightarrow>
     storage (snd (fetchWithAuth net u opts s)) = storage s
     \<and> href (snd (fetchWithAuth net u opts s)) = href s
     \<and> effects (snd (fetchWithAuth net u opts s))
         = effects s @ [Fetch u (decorate (getToken s) opts)]
     \<and> fst (fetchWithAuth net u opts s)
         = (case net u (decorate (getToken s) opts) of
              Rejected e \<Rightarrow> Inl e | Resolved res \<Rightarrow> Inr res)"
  by (cases "net u (decorate (getToken s) opts)") (auto simp: fetchWithAuth_def session_defs)

text \<open>A 403 reaches the caller and changes nothing.\<close>

theorem fetchWithAuth_frame_witness:
  "storage (snd (fetchWithAuth (respond \<lparr>status = 403, json_body = Inr JNull\<rparr>)
            (''/engine/prediction'', []) GET signed_in)) = storage signed_in
   \<and> href (snd (fetchWithAuth (respond \<lparr>status = 403, json_body = Inr JNull\<rparr>)
            (''/engine/prediction'', []) GET signed_in)) = ''loto6.html''
   \<and> fst (fetchWithAuth (respond \<lparr>status = 403, json_body = Inr JNull\<rparr>)
            (''/engine/prediction'', []) GET signed_in)
       = Inr \<lparr>status = 403, json_body = Inr JNull\<rparr>"
proof -
  let ?res = "\<lparr>status = 403, json_body = Inr JNull\<rparr>"
  have pre: "\<not> (\<exists>res. respond ?res (''/engine/prediction'', []) (decorate (getToken signed_in) GET)
               = Resolved res \<and> status res = 401)"
    by (simp add: respond_def)
  have h: "href signed_in = ''loto6.html''" by (simp add: signed_in_def)
  have r: "respond ?res (''/engine/prediction'', []) (decorate (getToken signed_in) GET) = Resolved ?res"
    by (simp add: respond_def)
  show ?thesis
    using fetchWithAuth_frame [of "respond ?res" "(''/engine/prediction'', [])" signed_in GET]
      pre h r
    by simp
qed

text \<open>
  Claim C8, as the code has it. The request \<open>fetchWithAuth\<close> passes to \<open>fetch\<close>
  keeps the caller's method and body, and its headers are a fresh object literal that
  starts from the own enumerable properties of \<open>options.headers\<close>: the caller's
  headers when \<open>options.headers\<close> is an object literal, nothing when it is missing or
  a \<open>Headers\<close> instance, the indices when it is an array of pairs. On that object, if
  a non-empty token is stored, \<open>Authorization\<close> is set to \<open>Bearer\<close> and the token,
  replacing a copied one; otherwise it is as copied. \<open>Content-Type\<close> is set to
  \<open>application/json\<close> if the copied \<open>Content-Type\<close> is absent or falsy and the body is
  a non-empty string; otherwise it is as copied. Every other copied header is passed
  on unchanged.
\<close>

theorem fetchWithAuth_request:
  "(\<exists>rest. effects (snd (fetchWithAuth net u opts s))
              = effects s @ Fetch u (decorate (getToken s) opts) # rest)
   \<and> opt_method (decorate (getToken s) opts) = opt_method opts
   \<and> opt_body (decorate (getToken s) opts) = opt_body opts
   \<and> opt_headers (decorate (getToken s) opts) = Some (Plain (JObj (sent_headers s opts)))
   \<and> (token_truthy (getToken s) \<longrightarrow>
        map_of (sent_headers s opts) ''Authorization''
          = Some (JStr (''Bearer '' @ the (getToken s))))
   \<and> (\<not> token_truthy (getToken s) \<longrightarrow>
        map_of (sent_headers s opts) ''Authorization''
          = map_of (spread_headers opts) ''Authorization'')
   \<and> (\<not> truthy (get_prop (JObj (spread_headers opts)) ''Content-Type'')
        \<and> (\<exists>b. opt_body opts = Some (StringBody b) \<and> b \<noteq> []) \<longrightarrow>
        map_of (sent_headers s opts) ''Content-Type'' = Some (JStr ''application/json''))
   \<and> (\<not> (\<not> truthy (get_prop (JObj (spread_headers opts)) ''Content-Type'')
        \<and> (\<exists>b. opt_body opts = Some (StringBody b) \<and> b \<noteq> [])) \<longrightarrow>
        map_of (sent_headers s opts) ''Content-Type''
          = map_of (spread_headers opts) ''Content-Type'')
   \<and> (\<forall>k. k \<noteq> ''Authorization'' \<and> k \<noteq> ''Content-Type'' \<longrightarrow>
        map_of (sent_headers s opts) k = map_of (spread_headers opts) k)
   \<and> (\<forall>kvs. opt_headers opts = Some (Plain (JObj kvs)) \<longrightarrow> spread_headers opts = kvs)
   \<and> (\<forall>xs. opt_headers opts = Some (Plain (JArr xs)) \<longrightarrow>
        spread_headers opts = zip (map show_nat [0..<length xs]) xs)
   \<and> (\<forall>hs. opt_headers opts = Some (HeadersInstance hs) \<longrightarrow> spread_headers opts = [])
   \<and> (opt_headers opts = None \<longrightarrow> spread_headers opts = [])"
proof -
  have eff: "\<exists>rest. effects (snd (fetchWithAuth net u opts s))
              = effects s @ Fetch u (decorate (getToken s) opts) # rest"
    by (cases "net u (decorate (getToken s) opts)") (auto simp: fetchWithAuth_def session_defs)
  have keep: "opt_method (decorate (getToken s) opts) = opt_method opts"
    "opt_body (decorate (getToken s) opts) = opt_body opts"
    "opt_headers (decorate (getToken s) opts) = Some (Plain (JObj (sent_headers s opts)))"
    by (simp_all add: decorate_def sent_headers_def Let_def)
  have ct_auth: "get_prop (JObj (AList.update ''Authorization'' v hs)) ''Content-Type''
                   = get_prop (JObj hs) ''Content-Type''"
    for v and hs :: "(string \<times> jsval) list"
    by (simp add: update_conv')
  have hdrs: "token_truthy (getToken s) \<longrightarrow>
        map_of (sent_headers s opts) ''Authorization''
          = Some (JStr (''Bearer '' @ the (getToken s)))"
    "\<not> token_truthy (getToken s) \<longrightarrow>
        map_of (sent_headers s opts) ''Authorization''
          = map_of (spread_headers opts) ''Authorization''"
    "\<forall>k. k \<noteq> ''Authorization'' \<and> k \<noteq> ''Content-Type'' \<longrightarrow>
        map_of (sent_headers s opts) k = map_of (spread_headers opts) k"
    by (simp_all add: decorate_def sent_headers_def Let_def update_conv')
  have body_cases: "(case opt_body opts of Some (StringBody b) \<Rightarrow> b \<noteq> [] | _ \<Rightarrow> False)
                      = (\<exists>b. opt_body opts = Some (StringBody b) \<and> b \<noteq> [])"
    by (auto split: option.splits req_body.splits)
  have ct: "\<not> truthy (get_prop (JObj (spread_headers opts)) ''Content-Type'')
        \<and> (\<exists>b. opt_body opts = Some (StringBody b) \<and> b \<noteq> []) \<longrightarrow>
        map_of (sent_headers s opts) ''Content-Type'' = Some (JStr ''application/json'')"
    "\<not> (\<not> truthy (get_prop (JObj (spread_headers opts)) ''Content-Type'')
        \<and> (\<exists>b. opt_body opts = Some (StringBody b) \<and> b \<noteq> [])) \<longrightarrow>
        map_of (sent_headers s opts) ''Content-Type''
          = map_of (spread_headers opts) ''Content-Type''"
    unfolding decorate_def sent_headers_def Let_def body_cases
    by (auto simp: update_conv' ct_auth)
  have spread: "\<forall>kvs. opt_headers opts = Some (Plain (JObj kvs)) \<longrightarrow> spread_headers opts = kvs"
    "\<forall>xs. opt_headers opts = Some (Plain (JArr xs)) \<longrightarrow>
        spread_headers opts = zip (map show_nat [0..<length xs]) xs"
    "\<forall>hs. opt_headers opts = Some (HeadersInstance hs) \<longrightarrow> spread_headers opts = []"
    "opt_headers opts = None \<longrightarrow> spread_headers opts = []"
    by (simp_all add: spread_headers_def)
  show ?thesis using eff keep hdrs ct spread by blast
qed

text \<open>A string body and one header in an object literal, in a signed-in browser.\<close>

theorem fetchWithAuth_request_witness:
  "map_of (sent_headers signed_in
      \<lparr>opt_method = Some ''POST'', opt_headers = Some (Plain (JObj [(''X-Trace'', JStr ''1'')])),
       opt_body = Some (StringBody ''x=1'')\<rparr>) ''Authorization'' = Some (JStr ''Bearer tok'')
   \<and> map_of (sent_headers signed_in
      \<lparr>opt_method = Some ''POST'', opt_headers = Some (Plain (JObj [(''X-Trace'', JStr ''1'')])),
       opt_body = Some (StringBody ''x=1'')\<rparr>) ''Content-Type'' = Some (JStr ''application/json'')
   \<and> map_of (sent_headers signed_in
      \<lparr>opt_method = Some ''POST'', opt_headers = Some (Plain (JObj [(''X-Trace'', JStr ''1'')])),
       opt_body = Some (StringBody ''x=1'')\<rparr>) ''X-Trace'' = Some (JStr ''1'')"
proof -
  let ?opts = "\<lparr>opt_method = Some ''POST'', opt_headers = Some (Plain (JObj [(''X-Trace'', JStr ''1'')])),
       opt_body = Some (StringBody ''x=1'')\<rparr>"
  have tok: "getToken signed_in = Some ''tok''" by (simp add: getToken_def signed_in_def)
  have ch: "spread_headers ?opts = [(''X-Trace'', JStr ''1'')]" by (simp add: spread_headers_def)
  show ?thesis
    using fetchWithAuth_request [of "respond \<lparr>status = 200, json_body = Inr JNull\<rparr>"
        "(''/x'', [])" ?opts signed_in] tok ch
    by simp
qed

text \<open>
  C8 as stated fails on a request with a body that is not a string and an
  \<open>Authorization\<close> header of the caller's: the request sent has the caller's header
  replaced and no \<open>Content-Type\<close>, although it has a body and the caller gave none.
  It also fails on headers given as a \<open>Headers\<close> instance: the caller's \<open>X-Trace\<close> is
  not in the request sent.
\<close>

theorem fetchWithAuth_request_counterexample:
  "effects (snd (fetchWithAuth (respond \<lparr>status = 200, json_body = Inr JNull\<rparr>) (''/upload'', [])
      \<lparr>opt_method = Some ''POST'',
       opt_headers = Some (Plain (JObj [(''Authorization'', JStr ''Basic abc'')])),
       opt_body = Some OtherBody\<rparr> signed_in))
   = [Fetch (''/upload'', [])
        \<lparr>opt_method = Some ''POST'',
         opt_headers = Some (Plain (JObj [(''Authorization'', JStr ''Bearer tok'')])),
         opt_body = Some OtherBody\<rparr>]
   \<and> effects (snd (fetchWithAuth (respond \<lparr>status = 200, json_body = Inr JNull\<rparr>) (''/x'', [])
      \<lparr>opt_method = Some ''POST'',
       opt_headers = Some (HeadersInstance [(''X-Trace'', ''1'')]),
       opt_body = Some (StringBody ''{}'')\<rparr> signed_in))
   = [Fetch (''/x'', [])
        \<lparr>opt_method = Some ''POST'',
         opt_headers = Some (Plain (JObj [(''Authorization'', JStr ''Bearer tok''),
                                          (''Content-Type'', JStr ''application/json'')])),
         opt_body = Some (StringBody ''{}'')\<rparr>]"
  by (simp add: fetchWithAuth_def session_defs respond_def decorate_def spread_headers_def
      getToken_def signed_in_def)

text \<open>
  Claim C9. \<open>requirePremium\<close> returns true exactly when a (non-empty) token is
  stored, the profile request resolves with an OK status and a JSON body, and the
  body's \<open>is_premium\<close> is truthy (for a boolean flag: true); in every other case
  (no token, a rejected request, 401, another status outside 200 to 299, a body that
  is not JSON, a profile that is not premium) it returns false. Whenever the response
  is OK with a JSON body the profile is stored, premium or not: \<open>setUser\<close> runs before
  the flag is looked at.
\<close>

theorem requirePremium_true_iff:
  "(fst (requirePremium h API_BASE net s)
      \<longleftrightarrow> token_truthy (getToken s)
          \<and> (\<exists>res user.
                net (API_BASE @ ''/auth/me'', [])
                    \<lparr>opt_method = None,
                     opt_headers = Some (Plain (JObj [(''Authorization'', JStr (''Bearer '' @ the (getToken s)))])),
                     opt_body = None\<rparr> = Resolved res
                \<and> ok res \<and> json_body res = Inr user
                \<and> truthy (get_prop user ''is_premium'')))
   \<and> (\<forall>res user.
         token_truthy (getToken s)
         \<and> net (API_BASE @ ''/auth/me'', [])
               \<lparr>opt_method = None,
                opt_headers = Some (Plain (JObj [(''Authorization'', JStr (''Bearer '' @ the (getToken s)))])),
                opt_body = None\<rparr> = Resolved res
         \<and> ok res \<and> json_body res = Inr user \<longrightarrow>
         storage (snd (requirePremium h API_BASE net s)) ''user'' = Some (JSON_stringify h user))"
proof -
  let ?req = "\<lparr>opt_method = None,
                opt_headers = Some (Plain (JObj [(''Authorization'', JStr (''Bearer '' @ the (getToken s)))])),
                opt_body = None\<rparr>"
  have ok401: "ok res \<Longrightarrow> status res \<noteq> 401" for res by (simp add: ok_def)
  have nul: "nullish v \<Longrightarrow> \<not> truthy (get_prop v k)" for v k by (cases v) simp_all
  show ?thesis
  proof (cases "token_truthy (getToken s)")
    case False
    then show ?thesis by (simp add: requirePremium_def)
  next
    case True
    show ?thesis
    proof (cases "net (API_BASE @ ''/auth/me'', []) ?req")
      case (Rejected e)
      then show ?thesis using True by (simp add: requirePremium_def session_defs)
    next
      case (Resolved res)
      show ?thesis
      proof (cases "ok res")
        case False
        then show ?thesis using True Resolved by (simp add: requirePremium_def session_defs)
      next
        case okr: True
        show ?thesis
        proof (cases "json_body res")
          case (Inl e)
          then show ?thesis using True Resolved okr ok401 [OF okr]
            by (simp add: requirePremium_def session_defs)
        next
          case (Inr user)
          then show ?thesis using True Resolved okr ok401 [OF okr] nul [of user]
            by (auto simp: requirePremium_def session_defs Let_def)
        qed
      qed
    qed
  qed
qed

text \<open>A premium profile, a profile that is not premium (and is cached), a 500.\<close>

theorem requirePremium_true_iff_witness:
  "fst (requirePremium plain_host []
         (respond \<lparr>status = 200, json_body = Inr (JObj [(''id'', JNum (Fin 1)), (''is_premium'', JBool True)])\<rparr>)
         signed_in)
   \<and> \<not> fst (requirePremium plain_host []
         (respond \<lparr>status = 200, json_body = Inr (JObj [(''id'', JNum (Fin 1)), (''is_premium'', JBool False)])\<rparr>)
         signed_in)
   \<and> storage (snd (requirePremium plain_host []
         (respond \<lparr>status = 200, json_body = Inr (JObj [(''id'', JNum (Fin 1)), (''is_premium'', JBool False)])\<rparr>)
         signed_in)) ''user'' = Some ''{}''
   \<and> \<not> fst (requirePremium plain_host [] (respond \<lparr>status = 500, json_body = Inr JNull\<rparr>) signed_in)"
proof -
  let ?yes = "\<lparr>status = 200, json_body = Inr (JObj [(''id'', JNum (Fin 1)), (''is_premium'', JBool True)])\<rparr>"
  let ?no = "\<lparr>status = 200, json_body = Inr (JObj [(''id'', JNum (Fin 1)), (''is_premium'', JBool False)])\<rparr>"
  let ?err = "\<lparr>status = 500, json_body = Inr JNull\<rparr>"
  have tok: "token_truthy (getToken signed_in)" by (simp add: getToken_def signed_in_def)
  have a: "fst (requirePremium plain_host [] (respond ?yes) signed_in)"
    using requirePremium_true_iff [of plain_host "[]" "respond ?yes" signed_in] tok
    by (simp add: respond_def ok_def)
  have b: "\<not> fst (requirePremium plain_host [] (respond ?no) signed_in)"
    using requirePremium_true_iff [of plain_host "[]" "respond ?no" signed_in] tok
    by (simp add: respond_def ok_def)
  have c: "storage (snd (requirePremium plain_host [] (respond ?no) signed_in)) ''user'' = Some ''{}''"
    using requirePremium_true_iff [of plain_host "[]" "respond ?no" signed_in] tok
    by (simp add: respond_def ok_def plain_host_def)
  have d: "\<not> fst (requirePremium plain_host [] (respond ?err) signed_in)"
    using requirePremium_true_iff [of plain_host "[]" "respond ?err" signed_in] tok
    by (simp add: respond_def ok_def)
  show ?thesis using a b c d by simp
qed

subsection \<open>Prediction client: response shapes\<close>

lemma ok_not_401_403: "ok res \<Longrightarrow> status res \<noteq> 401 \<and> status res \<noteq> 403"
  by (simp add: ok_def)

lemma not_ok_403: "status res = 403 \<Longrightarrow> \<not> ok res \<and> status res \<noteq> 401"
  by (simp add: ok_def)

lemma fetchWithAuth_respond:
  "status res \<noteq> 401 \<Longrightarrow> fst (fetchWithAuth (respond res) u opts s) = Inr res"
  by (simp add: fetchWithAuth_def session_defs respond_def)

lemma fetchPredictionsFromEngine_ok:
  assumes "ok res" "json_body res = Inr data"
  shows "fst (fetchPredictionsFromEngine h (respond res) B L p count s) =
           (if isArray (get_prop data ''predictions'') then Inr (get_prop data ''predictions'')
            else if truthy (get_prop (get_prop data ''prediction'') ''numbers'') then Inr data
            else Inl (Error ''Invalid response shape''))"
  using assms ok_not_401_403 [OF assms(1)]
  by (simp add: fetchPredictionsFromEngine_def fetchWithAuth_def session_defs respond_def Let_def)

lemma fetchFortuneOnce_ok:
  assumes "ok res" "json_body res = Inr data"
  shows "fst (fetchFortuneOnce h (respond res) B bd count rnd dd s) =
           (if isArray (get_prop (get_prop data ''prediction'') ''tickets'') then Inr data
            else Inl (Error ''Invalid response: prediction.tickets is missing''))"
  using assms ok_not_401_403 [OF assms(1)]
  by (simp add: fetchFortuneOnce_def fetchWithAuth_def session_defs respond_def Let_def)

text \<open>
  Claim C5, as the code has it. On an OK response with a JSON body the client of the
  logic pages fails with \<open>Invalid response shape\<close> exactly when the body has no
  \<open>predictions\<close> array and no truthy \<open>prediction.numbers\<close>; it returns the array in
  the first case and the body itself in the second, and \<open>prediction.tickets\<close> plays no
  part. The client of the fortune page fails with its own \<open>Invalid response\<close> error
  exactly when \<open>prediction.tickets\<close> is not an array, and returns the body otherwise.
\<close>

theorem response_shape_accepted:
  "ok res \<and> json_body res = Inr data \<longrightarrow>
     (fst (fetchPredictionsFromEngine h (respond res) B L p count s)
          = Inl (Error ''Invalid response shape'')
        \<longleftrightarrow> \<not> isArray (get_prop data ''predictions'')
            \<and> \<not> truthy (get_prop (get_prop data ''prediction'') ''numbers''))
     \<and> (isArray (get_prop data ''predictions'') \<longrightarrow>
          fst (fetchPredictionsFromEngine h (respond res) B L p count s)
            = Inr (get_prop data ''predictions''))
     \<and> (\<not> isArray (get_prop data ''predictions'')
          \<and> truthy (get_prop (get_prop data ''prediction'') ''numbers'') \<longrightarrow>
          fst (fetchPredictionsFromEngine h (respond res) B L p count s) = Inr data)
     \<and> (fst (fetchFortuneOnce h (respond res) B bd count rnd dd s)
          = Inl (Error ''Invalid response: prediction.tickets is missing'')
        \<longleftrightarrow> \<not> isArray (get_prop (get_prop data ''prediction'') ''tickets''))
     \<and> (isArray (get_prop (get_prop data ''prediction'') ''tickets'') \<longrightarrow>
          fst (fetchFortuneOnce h (respond res) B bd count rnd dd s) = Inr data)"
proof
  assume a: "ok res \<and> json_body res = Inr data"
  then have o: "ok res" and j: "json_body res = Inr data" by simp_all
  show "(fst (fetchPredictionsFromEngine h (respond res) B L p count s)
          = Inl (Error ''Invalid response shape'')
        \<longleftrightarrow> \<not> isArray (get_prop data ''predictions'')
            \<and> \<not> truthy (get_prop (get_prop data ''prediction'') ''numbers''))
     \<and> (isArray (get_prop data ''predictions'') \<longrightarrow>
          fst (fetchPredictionsFromEngine h (respond res) B L p count s)
            = Inr (get_prop data ''predictions''))
     \<and> (\<not> isArray (get_prop data ''predictions'')
          \<and> truthy (get_prop (get_prop data ''prediction'') ''numbers'') \<longrightarrow>
          fst (fetchPredictionsFromEngine h (respond res) B L p count s) = Inr data)
     \<and> (fst (fetchFortuneOnce h (respond res) B bd count rnd dd s)
          = Inl (Error ''Invalid response: prediction.tickets is missing'')
        \<longleftrightarrow> \<not> isArray (get_prop (get_prop data ''prediction'') ''tickets''))
     \<and> (isArray (get_prop (get_prop data ''prediction'') ''tickets'') \<longrightarrow>
          fst (fetchFortuneOnce h (respond res) B bd count rnd dd s) = Inr data)"
    unfolding fetchPredictionsFromEngine_ok [OF o j] fetchFortuneOnce_ok [OF o j]
    by simp
qed

text \<open>
  A body with numbers and tickets passes both clients; a body with none of the three
  fields fails.
\<close>

theorem response_shape_accepted_witness:
  "fst (fetchPredictionsFromEngine plain_host
          (respond \<lparr>status = 200, json_body = Inr one_ticket\<rparr>) [] ''loto7'' idle_page (Fin 1) signed_in)
     = Inr one_ticket
   \<and> fst (fetchFortuneOnce plain_host
          (respond \<lparr>status = 200, json_body = Inr one_ticket\<rparr>) [] ''1990-01-01'' (Fin 1) (Fin 0)
          JUndefined signed_in)
     = Inr one_ticket
   \<and> fst (fetchPredictionsFromEngine plain_host
          (respond \<lparr>status = 200, json_body = Inr (JObj [(''detail'', JStr ''x'')])\<rparr>) [] ''loto7''
          idle_page (Fin 1) signed_in)
     = Inl (Error ''Invalid response shape'')"
proof -
  have a: "ok \<lparr>status = 200, json_body = Inr one_ticket\<rparr>
           \<and> json_body \<lparr>status = 200, json_body = Inr one_ticket\<rparr> = Inr one_ticket"
    by (simp add: ok_def)
  have b: "ok \<lparr>status = 200, json_body = Inr (JObj [(''detail'', JStr ''x'')])\<rparr>
           \<and> json_body \<lparr>status = 200, json_body = Inr (JObj [(''detail'', JStr ''x'')])\<rparr>
               = Inr (JObj [(''detail'', JStr ''x'')])"
    by (simp add: ok_def)
  have p: "\<not> isArray (get_prop one_ticket ''predictions'')"
    "truthy (get_prop (get_prop one_ticket ''prediction'') ''numbers'')"
    "isArray (get_prop (get_prop one_ticket ''prediction'') ''tickets'')"
    by (simp_all add: one_ticket_def)
  have x: "fst (fetchPredictionsFromEngine plain_host
          (respond \<lparr>status = 200, json_body = Inr one_ticket\<rparr>) [] ''loto7'' idle_page (Fin 1) signed_in)
     = Inr one_ticket"
    using response_shape_accepted [of "\<lparr>status = 200, json_body = Inr one_ticket\<rparr>" one_ticket
        plain_host "[]" "''loto7''" idle_page "Fin 1" signed_in "''1990-01-01''" "Fin 0" JUndefined]
      a p by blast
  have y: "fst (fetchFortuneOnce plain_host
          (respond \<lparr>status = 200, json_body = Inr one_ticket\<rparr>) [] ''1990-01-01'' (Fin 1) (Fin 0)
          JUndefined signed_in)
     = Inr one_ticket"
    using response_shape_accepted [of "\<lparr>status = 200, json_body = Inr one_ticket\<rparr>" one_ticket
        plain_host "[]" "''loto7''" idle_page "Fin 1" signed_in "''1990-01-01''" "Fin 0" JUndefined]
      a p by blast
  have z: "fst (fetchPredictionsFromEngine plain_host
          (respond \<lparr>status = 200, json_body = Inr (JObj [(''detail'', JStr ''x'')])\<rparr>) [] ''loto7''
          idle_page (Fin 1) signed_in)
     = Inl (Error ''Invalid response shape'')"
    using response_shape_accepted [of "\<lparr>status = 200, json_body = Inr (JObj [(''detail'', JStr ''x'')])\<rparr>"
        "JObj [(''detail'', JStr ''x'')]"
        plain_host "[]" "''loto7''" idle_page "Fin 1" signed_in "''1990-01-01''" "Fin 0" JUndefined]
      b by simp
  show ?thesis using x y z by simp
qed

text \<open>
  C5 as stated accepts every body with one of the three fields. A body with
  \<open>prediction.tickets\<close> alone is refused by the logic pages' client, and a body
  with a \<open>predictions\<close> array alone by the fortune page's.
\<close>

theorem response_shape_tickets_only_counterexample:
  "fst (fetchPredictionsFromEngine plain_host
          (respond \<lparr>status = 200,
                    json_body = Inr (JObj [(''prediction'',
                      JObj [(''tickets'', JArr [JArr [JNum (Fin 1), JNum (Fin 2), JNum (Fin 3)]])])])\<rparr>)
          [] ''loto7'' idle_page (Fin 1) signed_in)
     = Inl (Error ''Invalid response shape'')
   \<and> fst (fetchFortuneOnce plain_host
          (respond \<lparr>status = 200,
                    json_body = Inr (JObj [(''predictions'', JArr [one_ticket])])\<rparr>)
          [] ''1990-01-01'' (Fin 1) (Fin 0) JUndefined signed_in)
     = Inl (Error ''Invalid response: prediction.tickets is missing'')"
  by (simp add: fetchPredictionsFromEngine_def fetchFortuneOnce_def fetchWithAuth_def session_defs
      respond_def ok_def Let_def)

subsection \<open>Entitlement failure and the paywall\<close>

lemma engine_error_not_sentinel: "''Engine error: '' @ x \<noteq> ''PREMIUM_REQUIRED''"
  by simp

lemma fetchPredictionsFromEngine_403_net:
  assumes "\<forall>q opts. net (B @ ''/engine/prediction'', q) opts = Resolved pres"
    and "status pres = 403"
  shows "fst (fetchPredictionsFromEngine h net B L p count s) = Inl (Error ''PREMIUM_REQUIRED'')"
  using assms
  by (simp add: fetchPredictionsFromEngine_def fetchWithAuth_def session_defs Let_def)

lemma fetchPredictionsFromEngine_403:
  assumes "status res = 403"
  shows "fst (fetchPredictionsFromEngine h (respond res) B L p count s) = Inl (Error ''PREMIUM_REQUIRED'')"
  using assms by (intro fetchPredictionsFromEngine_403_net) (simp_all add: respond_def)

lemma fetchPredictionsFromEngine_respond:
  "fst (fetchPredictionsFromEngine h (respond res) B L p count s) =
     (if status res = 401 then Inl (Error ''Unauthorized'')
      else if status res = 403 then Inl (Error ''PREMIUM_REQUIRED'')
      else if \<not> ok res then Inl (Error (''Engine error: '' @ show_nat (status res)))
      else case json_body res of
             Inl e \<Rightarrow> Inl e
           | Inr data \<Rightarrow>
               if isArray (get_prop data ''predictions'') then Inr (get_prop data ''predictions'')
               else if truthy (get_prop (get_prop data ''prediction'') ''numbers'') then Inr data
               else Inl (Error ''Invalid response shape''))"
  by (simp add: fetchPredictionsFromEngine_def fetchWithAuth_def session_defs respond_def Let_def
      split: sum.split)

lemma fetchPredictionsFromEngine_sentinel_only_403:
  assumes "status res \<noteq> 403"
    and "fst (fetchPredictionsFromEngine h (respond res) B L p count s) = Inl e"
    and "message e = ''PREMIUM_REQUIRED''"
  shows "json_body res = Inl e"
proof (cases "status res = 401")
  case True
  then show ?thesis using assms by (auto simp: fetchPredictionsFromEngine_respond)
next
  case n401: False
  show ?thesis
  proof (cases "ok res")
    case False
    then show ?thesis using assms n401 by (auto simp: fetchPredictionsFromEngine_respond)
  next
    case True
    show ?thesis
    proof (cases "json_body res")
      case (Inl e')
      then show ?thesis using assms n401 True by (simp add: fetchPredictionsFromEngine_respond)
    next
      case (Inr data)
      then show ?thesis using assms n401 True
        by (auto simp: fetchPredictionsFromEngine_respond split: if_splits)
    qed
  qed
qed

lemma on_failure_cases:
  "(message e = ''PREMIUM_REQUIRED'' \<longrightarrow> on_failure e p = showPremiumWall p)
   \<and> (message e \<noteq> ''PREMIUM_REQUIRED'' \<longrightarrow> on_failure e p = showError RetryLater p)"
  by (simp add: on_failure_def)

lemma paywall_view:
  "cards (showPremiumWall p) = PremiumWall \<and> \<not> button_disabled (showPremiumWall p)
   \<and> button_text (showPremiumWall p) = LabelIssue
   \<and> cards (showError m p) = ErrorCard m"
  by (simp add: showPremiumWall_def showError_def setButtonLoading_def)

lemma fetchLatestDraw_loto6_resolved:
  assumes "net (B @ ''/draw/latest'', [(''loto_type'', ''loto6'')]) GET = Resolved dres"
    and "json_body dres = Inr latest" and "\<not> nullish latest"
  shows "\<exists>p1 s1. fetchLatestDraw_loto6 h net B p s = (Inr latest, p1, s1)"
  using assms by (simp add: fetchLatestDraw_loto6_def do_fetch_def Let_def)

lemma issue_click_loto6_403:
  assumes d: "net (B @ ''/draw/latest'', [(''loto_type'', ''loto6'')]) GET = Resolved dres"
    and j: "json_body dres = Inr latest" and n: "\<not> nullish latest"
    and e: "\<forall>q opts. net (B @ ''/engine/prediction'', q) opts = Resolved pres"
    and f: "status pres = 403"
  shows "\<exists>p'. fst (issue_click_loto6 h net B selected p s) = showPremiumWall p'"
proof -
  define count where "count = clampInt (Number_of h (js_or (JStr selected) (JNum (Fin 1)))) (Fin 1) (Fin 100)"
  obtain p1 s1 where l: "fetchLatestDraw_loto6 h net B (showLoading (Generating count) p) s = (Inr latest, p1, s1)"
    using fetchLatestDraw_loto6_resolved
      [of net B dres latest h "showLoading (Generating count) p" s] d j n by blast
  define p2 where "p2 = p1\<lparr>round_js := Number_of h (js_or (get_prop latest ''round'') (JNum (Fin 0))),
                            drawDate := String_of h (js_or (get_prop latest ''draw_date'') (JStr []))\<rparr>"
  obtain s2 where r: "fetchPredictionsFromEngine h net B ''loto6'' p2 count s1 = (Inl (Error ''PREMIUM_REQUIRED''), s2)"
    using fetchPredictionsFromEngine_403_net [of net B pres h "''loto6''" p2 count s1] e f
    by (cases "fetchPredictionsFromEngine h net B ''loto6'' p2 count s1") simp
  have "fst (issue_click_loto6 h net B selected p s) = on_failure (Error ''PREMIUM_REQUIRED'') p2"
    unfolding issue_click_loto6_def Let_def count_def [symmetric]
    by (simp add: l n p2_def [symmetric] r)
  then have "fst (issue_click_loto6 h net B selected p s) = showPremiumWall p2"
    by (simp add: on_failure_def)
  then show ?thesis by (rule exI)
qed

text \<open>
  Claim C4. A 403 from the prediction endpoint makes the client fail with
  \<open>Error("PREMIUM_REQUIRED")\<close>, and no other status does: apart from 403, a failure
  with that message can only be the runtime's own error for a body that is not JSON.
  The \<open>catch\<close> block compares the whole message with the sentinel: an error with just
  that message gets the paywall, every other error the retry-later card. So a click on
  the loto6 page whose draw lookup succeeds and whose prediction request is answered
  403 ends with the paywall card, not the error card, and the button enabled again with
  its issue label.
\<close>

theorem premium_required_routing:
  "(status res = 403 \<longrightarrow>
      fst (fetchPredictionsFromEngine h (respond res) B L p count s)
        = Inl (Error ''PREMIUM_REQUIRED''))
   \<and> (status res \<noteq> 403
        \<and> fst (fetchPredictionsFromEngine h (respond res) B L p count s) = Inl e
        \<and> message e = ''PREMIUM_REQUIRED'' \<longrightarrow> json_body res = Inl e)
   \<and> (message e = ''PREMIUM_REQUIRED'' \<longrightarrow> on_failure e p = showPremiumWall p)
   \<and> (message e \<noteq> ''PREMIUM_REQUIRED'' \<longrightarrow> on_failure e p = showError RetryLater p)
   \<and> (net (B @ ''/draw/latest'', [(''loto_type'', ''loto6'')]) GET = Resolved dres
        \<and> json_body dres = Inr latest \<and> \<not> nullish latest
        \<and> (\<forall>q opts. net (B @ ''/engine/prediction'', q) opts = Resolved pres)
        \<and> status pres = 403 \<longrightarrow>
        cards (fst (issue_click_loto6 h net B selected p s)) = PremiumWall
        \<and> cards (fst (issue_click_loto6 h net B selected p s)) \<noteq> ErrorCard RetryLater
        \<and> \<not> button_disabled (fst (issue_click_loto6 h net B selected p s))
        \<and> button_text (fst (issue_click_loto6 h net B selected p s)) = LabelIssue)"
proof -
  have a: "status res = 403 \<longrightarrow>
      fst (fetchPredictionsFromEngine h (respond res) B L p count s)
        = Inl (Error ''PREMIUM_REQUIRED'')"
    using fetchPredictionsFromEngine_403 by blast
  have b: "status res \<noteq> 403
        \<and> fst (fetchPredictionsFromEngine h (respond res) B L p count s) = Inl e
        \<and> message e = ''PREMIUM_REQUIRED'' \<longrightarrow> json_body res = Inl e"
    using fetchPredictionsFromEngine_sentinel_only_403 by blast
  have c: "net (B @ ''/draw/latest'', [(''loto_type'', ''loto6'')]) GET = Resolved dres
        \<and> json_body dres = Inr latest \<and> \<not> nullish latest
        \<and> (\<forall>q opts. net (B @ ''/engine/prediction'', q) opts = Resolved pres)
        \<and> status pres = 403 \<longrightarrow>
        cards (fst (issue_click_loto6 h net B selected p s)) = PremiumWall
        \<and> cards (fst (issue_click_loto6 h net B selected p s)) \<noteq> ErrorCard RetryLater
        \<and> \<not> button_disabled (fst (issue_click_loto6 h net B selected p s))
        \<and> button_text (fst (issue_click_loto6 h net B selected p s)) = LabelIssue"
  proof
    assume hyp: "net (B @ ''/draw/latest'', [(''loto_type'', ''loto6'')]) GET = Resolved dres
        \<and> json_body dres = Inr latest \<and> \<not> nullish latest
        \<and> (\<forall>q opts. net (B @ ''/engine/prediction'', q) opts = Resolved pres)
        \<and> status pres = 403"
    obtain p' where "fst (issue_click_loto6 h net B selected p s) = showPremiumWall p'"
      using issue_click_loto6_403 [of net B dres latest pres h selected p s] hyp by blast
    then show "cards (fst (issue_click_loto6 h net B selected p s)) = PremiumWall
        \<and> cards (fst (issue_click_loto6 h net B selected p s)) \<noteq> ErrorCard RetryLater
        \<and> \<not> button_disabled (fst (issue_click_loto6 h net B selected p s))
        \<and> button_text (fst (issue_click_loto6 h net B selected p s)) = LabelIssue"
      using paywall_view [of p'] by simp
  qed
  have d: "(message e = ''PREMIUM_REQUIRED'' \<longrightarrow> on_failure e p = showPremiumWall p)
   \<and> (message e \<noteq> ''PREMIUM_REQUIRED'' \<longrightarrow> on_failure e p = showError RetryLater p)"
    by (rule on_failure_cases)
  from a b c d show ?thesis by (intro conjI) (erule conjunct1 conjunct2 | assumption)+
qed

text \<open>A click on the loto6 page against a server that answers the prediction request 403.\<close>

theorem premium_required_routing_witness:
  "cards (fst (issue_click_loto6 plain_host paywalled [] ''3'' idle_page signed_in)) = PremiumWall
   \<and> \<not> button_disabled (fst (issue_click_loto6 plain_host paywalled [] ''3'' idle_page signed_in))
   \<and> fst (fetchPredictionsFromEngine plain_host
            (respond \<lparr>status = 403, json_body = Inr JNull\<rparr>) [] ''loto6'' idle_page (Fin 3) signed_in)
       = Inl (Error ''PREMIUM_REQUIRED'')
   \<and> on_failure (Error ''Engine error: 500'') idle_page = showError RetryLater idle_page"
proof -
  let ?dres = "\<lparr>status = 200,
                    json_body = Inr (JObj [(''round'', JNum (Fin 1894)),
                                           (''draw_date'', JStr ''2026-02-01'')])\<rparr>"
  let ?pres = "\<lparr>status = 403,
                    json_body = Inr (JObj [(''detail'', JStr ''Premium required'')])\<rparr>"
  have pre: "paywalled ([] @ ''/draw/latest'', [(''loto_type'', ''loto6'')]) GET = Resolved ?dres
        \<and> json_body ?dres = Inr (JObj [(''round'', JNum (Fin 1894)), (''draw_date'', JStr ''2026-02-01'')])
        \<and> \<not> nullish (JObj [(''round'', JNum (Fin 1894)), (''draw_date'', JStr ''2026-02-01'')])
        \<and> (\<forall>q opts. paywalled ([] @ ''/engine/prediction'', q) opts = Resolved ?pres)
        \<and> status ?pres = 403"
    by (simp add: paywalled_def)
  have m: "message (Error ''Engine error: 500'') \<noteq> ''PREMIUM_REQUIRED''" by simp
  have s403: "status \<lparr>status = 403, json_body = Inr JNull\<rparr> = 403" by simp
  note r = premium_required_routing [where res = "\<lparr>status = 403, json_body = Inr JNull\<rparr>"
      and h = plain_host and B = "[]" and L = "''loto6''" and p = idle_page and count = "Fin 3"
      and s = signed_in and e = "Error ''Engine error: 500''" and net = paywalled
      and dres = ?dres
      and latest = "JObj [(''round'', JNum (Fin 1894)), (''draw_date'', JStr ''2026-02-01'')]"
      and pres = ?pres and selected = "''3''"]
  show ?thesis using r pre m s403 by blast
qed

subsection \<open>Draw info client\<close>

lemma show_nat_500: "show_nat 500 = ''500''"
  by code_simp

text \<open>
  Claim C6 fails on loto6-logic.js. With the draw endpoint answering 500 and a JSON
  error body, \<open>fetchLatestDraw\<close> of loto6-logic.js resolves with that body where the
  one of loto7-logic.js throws \<open>draw/latest error: 500\<close>; the click handler goes on,
  sends the prediction request and shows the ticket.
\<close>

theorem fetchLatestDraw_loto6_status_ignored:
  "fst (fetchLatestDraw_loto6 plain_host draw_down [] idle_page signed_in)
     = Inr (JObj [(''detail'', JStr ''Internal Server Error'')])
   \<and> fst (fetchLatestDraw_loto7 plain_host draw_down [] idle_page signed_in)
     = Inl (Error ''draw/latest error: 500'')
   \<and> cards (fst (issue_click_loto6 plain_host draw_down [] ''1'' idle_page signed_in))
     = TicketCards [JArr [JNum (Fin 1), JNum (Fin 2), JNum (Fin 3)]]
   \<and> map (\<lambda>e. case e of Fetch u opts \<Rightarrow> fst u | _ \<Rightarrow> [])
        (effects (snd (issue_click_loto6 plain_host draw_down [] ''1'' idle_page signed_in)))
     = [''/draw/latest'', ''/engine/prediction'']"
proof -
  have a: "fst (fetchLatestDraw_loto6 plain_host draw_down [] idle_page signed_in)
     = Inr (JObj [(''detail'', JStr ''Internal Server Error'')])"
    by (simp add: fetchLatestDraw_loto6_def do_fetch_def draw_down_def idle_page_def Let_def)
  have b: "fst (fetchLatestDraw_loto7 plain_host draw_down [] idle_page signed_in)
     = Inl (Error ''draw/latest error: 500'')"
    by (simp add: fetchLatestDraw_loto7_def do_fetch_def draw_down_def ok_def show_nat_500
        del: show_nat.simps)
  have c: "issue_click_loto6 plain_host draw_down [] ''1'' idle_page signed_in
      = (fst (issue_click_loto6 plain_host draw_down [] ''1'' idle_page signed_in),
         snd (issue_click_loto6 plain_host draw_down [] ''1'' idle_page signed_in))"
    by simp
  have d: "cards (fst (issue_click_loto6 plain_host draw_down [] ''1'' idle_page signed_in))
     = TicketCards [JArr [JNum (Fin 1), JNum (Fin 2), JNum (Fin 3)]]
   \<and> map (\<lambda>e. case e of Fetch u opts \<Rightarrow> fst u | _ \<Rightarrow> [])
        (effects (snd (issue_click_loto6 plain_host draw_down [] ''1'' idle_page signed_in)))
     = [''/draw/latest'', ''/engine/prediction'']"
    by (simp add: issue_click_loto6_def fetchLatestDraw_loto6_def fetchPredictionsFromEngine_def
        fetchWithAuth_def showPredictions_loto6_def session_defs draw_down_def idle_page_def
        signed_in_def one_ticket_def plain_host_def showLoading_def setButtonLoading_def
        js_or_def js_coalesce_def ok_def Let_def GET_def decorate_def getToken_def)
  show ?thesis using a b d by simp
qed

text \<open>
  What does hold: \<open>fetchLatestDraw\<close> of loto7-logic.js fails on a rejected request
  and on every status outside 200 to 299, and the page then shows the fixed draw-info
  message having sent nothing but the draw request; on the loto6 page a rejected draw
  request ends in the retry-later card with no prediction request sent.
\<close>

lemma fetchLatestDraw_loto7_fails:
  "(net (B @ ''/draw/latest'', [(''loto_type'', ''loto7'')]) GET = Rejected e \<longrightarrow>
      fst (fetchLatestDraw_loto7 h net B p s) = Inl e)
   \<and> (net (B @ ''/draw/latest'', [(''loto_type'', ''loto7'')]) GET = Resolved res \<and> \<not> ok res \<longrightarrow>
      fst (fetchLatestDraw_loto7 h net B p s)
        = Inl (Error (''draw/latest error: '' @ show_nat (status res))))"
  by (simp add: fetchLatestDraw_loto7_def do_fetch_def)

lemma page_load_loto7_draw_failure:
  assumes "net (B @ ''/draw/latest'', [(''loto_type'', ''loto7'')]) GET = Rejected e
           \<or> (\<exists>res. net (B @ ''/draw/latest'', [(''loto_type'', ''loto7'')]) GET = Resolved res \<and> \<not> ok res)"
  shows "cards (fst (page_load_loto7 h net B p s)) = ErrorCard DrawInfoFailed
         \<and> effects (snd (page_load_loto7 h net B p s))
             = effects s @ [Fetch (B @ ''/draw/latest'', [(''loto_type'', ''loto7'')]) GET]"
  using assms
  by (auto simp: page_load_loto7_def fetchLatestDraw_loto7_def do_fetch_def record_effect_def
      showError_def setButtonLoading_def)

lemma issue_click_loto6_transport_failure:
  assumes "net (B @ ''/draw/latest'', [(''loto_type'', ''loto6'')]) GET = Rejected e"
    and "message e \<noteq> ''PREMIUM_REQUIRED''"
  shows "cards (fst (issue_click_loto6 h net B selected p s)) = ErrorCard RetryLater
         \<and> effects (snd (issue_click_loto6 h net B selected p s))
             = effects s @ [Fetch (B @ ''/draw/latest'', [(''loto_type'', ''loto6'')]) GET]"
  using assms
  by (simp add: issue_click_loto6_def fetchLatestDraw_loto6_def do_fetch_def record_effect_def
      on_failure_def showError_def setButtonLoading_def Let_def)

subsection \<open>Exploding an envelope into records\<close>

lemma slice0_count: "slice0 xs (Fin (of_nat n)) = take n xs"
  by (simp add: slice0_def)

lemma showPredictions_list_envelope:
  assumes "\<not> isArray payload"
  shows "showPredictions_list payload count =
           map (explode_record (envelope_json payload) (envelope_pred payload)
                  (carried_fixed (envelope_pred payload)))
             (slice0
                (case get_prop (envelope_pred payload) ''tickets'' of
                   JArr ts \<Rightarrow> if ts \<noteq> [] then ts
                              else [js_or (get_prop (envelope_pred payload) ''numbers'') (JArr [])]
                 | _ \<Rightarrow> [js_or (get_prop (envelope_pred payload) ''numbers'') (JArr [])])
                count)"
proof -
  have "showPredictions_list payload count =
          (let json = js_or payload (JObj []);
               pred = js_or (get_prop json ''prediction'') (JObj []);
               tickets = (case get_prop pred ''tickets'' of JArr ts \<Rightarrow> ts | _ \<Rightarrow> []);
               fixed = (if isArray (get_prop pred ''fixed_numbers'')
                        then get_prop pred ''fixed_numbers'' else JArr []);
               baseTickets = (if tickets \<noteq> [] then tickets
                              else [js_or (get_prop pred ''numbers'') (JArr [])]);
               slice = slice0 baseTickets count
           in map (explode_record json pred fixed) slice)"
    using assms by (cases payload) (simp_all add: showPredictions_list_def)
  also have "\<dots> = map (explode_record (envelope_json payload) (envelope_pred payload)
                  (carried_fixed (envelope_pred payload)))
             (slice0
                (case get_prop (envelope_pred payload) ''tickets'' of
                   JArr ts \<Rightarrow> if ts \<noteq> [] then ts
                              else [js_or (get_prop (envelope_pred payload) ''numbers'') (JArr [])]
                 | _ \<Rightarrow> [js_or (get_prop (envelope_pred payload) ''numbers'') (JArr [])])
                count)"
    by (cases "get_prop (envelope_pred payload) ''tickets''")
       (simp_all add: Let_def envelope_json_def envelope_pred_def carried_fixed_def)
  finally show ?thesis .
qed

lemma explode_record_is_record:
  "record_of_ticket json pred fixed nums (explode_record json pred fixed nums)"
  by (simp add: record_of_ticket_def explode_record_def update_conv')

text \<open>
  Claim C1, as the code has it. Let the payload be a single envelope (not an array) and
  the count \<open>n\<close> at least 1. If \<open>prediction.tickets\<close> is a non-empty array, the list of
  records has \<open>min(length(tickets), n)\<close> entries, and the i-th is a shallow copy of the
  envelope whose \<open>prediction\<close> is a shallow copy of the envelope's with \<open>numbers\<close>
  replaced by the i-th ticket; so only the first \<open>n\<close> tickets are used. If
  \<open>prediction.tickets\<close> is absent, not an array or empty, there is one record, built
  the same way from \<open>prediction.numbers\<close> (or the empty array when that is falsy).
  In every record \<open>prediction.fixed_numbers\<close> is the envelope's when that is an array,
  and the empty array otherwise.
\<close>

theorem showPredictions_records:
  "\<not> isArray payload \<and> 1 \<le> n \<longrightarrow>
     (get_prop (envelope_pred payload) ''tickets'' = JArr ts \<and> ts \<noteq> [] \<longrightarrow>
        length (showPredictions_list payload (Fin (of_nat n))) = min (length ts) n
        \<and> (\<forall>i < min (length ts) n.
              record_of_ticket (envelope_json payload) (envelope_pred payload)
                (carried_fixed (envelope_pred payload)) (ts ! i)
                (showPredictions_list payload (Fin (of_nat n)) ! i)))
     \<and> (get_prop (envelope_pred payload) ''tickets'' = JArr []
          \<or> \<not> isArray (get_prop (envelope_pred payload) ''tickets'') \<longrightarrow>
        length (showPredictions_list payload (Fin (of_nat n))) = 1
        \<and> record_of_ticket (envelope_json payload) (envelope_pred payload)
             (carried_fixed (envelope_pred payload))
             (js_or (get_prop (envelope_pred payload) ''numbers'') (JArr []))
             (showPredictions_list payload (Fin (of_nat n)) ! 0))
     \<and> (isArray (get_prop (envelope_pred payload) ''fixed_numbers'') \<longrightarrow>
          carried_fixed (envelope_pred payload) = get_prop (envelope_pred payload) ''fixed_numbers'')
     \<and> (\<not> isArray (get_prop (envelope_pred payload) ''fixed_numbers'') \<longrightarrow>
          carried_fixed (envelope_pred payload) = JArr [])"
proof (intro impI conjI)
  assume a: "\<not> isArray payload \<and> 1 \<le> n"
  assume t: "get_prop (envelope_pred payload) ''tickets'' = JArr ts \<and> ts \<noteq> []"
  have l: "showPredictions_list payload (Fin (of_nat n)) =
             map (explode_record (envelope_json payload) (envelope_pred payload)
                    (carried_fixed (envelope_pred payload))) (take n ts)"
    using a t by (simp add: showPredictions_list_envelope slice0_count)
  show "length (showPredictions_list payload (Fin (of_nat n))) = min (length ts) n"
    by (simp add: l)
  show "\<forall>i < min (length ts) n.
              record_of_ticket (envelope_json payload) (envelope_pred payload)
                (carried_fixed (envelope_pred payload)) (ts ! i)
                (showPredictions_list payload (Fin (of_nat n)) ! i)"
    by (simp add: l explode_record_is_record)
next
  assume a: "\<not> isArray payload \<and> 1 \<le> n"
  assume t: "get_prop (envelope_pred payload) ''tickets'' = JArr []
          \<or> \<not> isArray (get_prop (envelope_pred payload) ''tickets'')"
  have l: "showPredictions_list payload (Fin (of_nat n)) =
             map (explode_record (envelope_json payload) (envelope_pred payload)
                    (carried_fixed (envelope_pred payload)))
               (take n [js_or (get_prop (envelope_pred payload) ''numbers'') (JArr [])])"
    using a t
    by (cases "get_prop (envelope_pred payload) ''tickets''")
       (auto simp: showPredictions_list_envelope slice0_count)
  have tk: "take n [x] = [x]" for x :: jsval using a by (cases n) simp_all
  show "length (showPredictions_list payload (Fin (of_nat n))) = 1"
    by (simp add: l tk)
  show "record_of_ticket (envelope_json payload) (envelope_pred payload)
             (carried_fixed (envelope_pred payload))
             (js_or (get_prop (envelope_pred payload) ''numbers'') (JArr []))
             (showPredictions_list payload (Fin (of_nat n)) ! 0)"
    by (simp add: l tk explode_record_is_record)
next
  assume "isArray (get_prop (envelope_pred payload) ''fixed_numbers'')"
  then show "carried_fixed (envelope_pred payload) = get_prop (envelope_pred payload) ''fixed_numbers''"
    by (simp add: carried_fixed_def)
next
  assume "\<not> isArray (get_prop (envelope_pred payload) ''fixed_numbers'')"
  then show "carried_fixed (envelope_pred payload) = JArr []"
    by (simp add: carried_fixed_def)
qed

text \<open>
  The specification's example (two tickets, \<open>fixed_numbers = [1]\<close>) with counts 1 and
  2, and an envelope without tickets.
\<close>

theorem showPredictions_records_witness:
  "length (showPredictions_list two_tickets (Fin 1)) = 1
   \<and> length (showPredictions_list two_tickets (Fin 2)) = 2
   \<and> get_prop (get_prop (showPredictions_list two_tickets (Fin 2) ! 0) ''prediction'') ''numbers''
       = JArr [JNum (Fin 1), JNum (Fin 2), JNum (Fin 3)]
   \<and> get_prop (get_prop (showPredictions_list two_tickets (Fin 2) ! 1) ''prediction'') ''numbers''
       = JArr [JNum (Fin 4), JNum (Fin 5), JNum (Fin 6)]
   \<and> get_prop (get_prop (showPredictions_list two_tickets (Fin 2) ! 1) ''prediction'') ''fixed_numbers''
       = JArr [JNum (Fin 1)]
   \<and> get_prop (showPredictions_list two_tickets (Fin 2) ! 1) ''meta''
       = JObj [(''model'', JStr ''logic'')]
   \<and> length (showPredictions_list numbers_only (Fin 3)) = 1
   \<and> get_prop (get_prop (showPredictions_list numbers_only (Fin 3) ! 0) ''prediction'') ''numbers''
       = JArr [JNum (Fin 7)]"
proof -
  let ?ts = "[JArr [JNum (Fin 1), JNum (Fin 2), JNum (Fin 3)],
              JArr [JNum (Fin 4), JNum (Fin 5), JNum (Fin 6)]]"
  have p: "envelope_pred two_tickets =
             JObj [(''numbers'', JArr [JNum (Fin 1), JNum (Fin 2), JNum (Fin 3)]),
                   (''tickets'', JArr ?ts), (''fixed_numbers'', JArr [JNum (Fin 1)])]"
    "envelope_json two_tickets = two_tickets"
    by (simp_all add: envelope_pred_def envelope_json_def two_tickets_def js_or_def)
  have pre: "\<not> isArray two_tickets" "get_prop (envelope_pred two_tickets) ''tickets'' = JArr ?ts"
    "carried_fixed (envelope_pred two_tickets) = JArr [JNum (Fin 1)]"
    by (simp_all add: p carried_fixed_def) (simp add: two_tickets_def)
  have H1: "\<not> isArray two_tickets \<and> 1 \<le> (1::nat)" and H2: "\<not> isArray two_tickets \<and> 1 \<le> (2::nat)"
    using pre(1) by simp_all
  have T: "get_prop (envelope_pred two_tickets) ''tickets'' = JArr ?ts \<and> ?ts \<noteq> []"
    using pre(2) by simp
  from showPredictions_records [of two_tickets 1 ?ts] H1 T
  have "length (showPredictions_list two_tickets (Fin (of_nat 1))) = min (length ?ts) 1"
    by blast
  then have a: "length (showPredictions_list two_tickets (Fin 1)) = 1" by simp
  from showPredictions_records [of two_tickets 2 ?ts] H2 T
  have both: "length (showPredictions_list two_tickets (Fin (of_nat 2))) = min (length ?ts) 2
      \<and> (\<forall>i < min (length ?ts) 2.
              record_of_ticket (envelope_json two_tickets) (envelope_pred two_tickets)
                (carried_fixed (envelope_pred two_tickets)) (?ts ! i)
                (showPredictions_list two_tickets (Fin (of_nat 2)) ! i))"
    by blast
  have b: "length (showPredictions_list two_tickets (Fin 2)) = 2"
    using both by simp
  have r: "\<forall>i<2. record_of_ticket two_tickets (envelope_pred two_tickets) (JArr [JNum (Fin 1)])
               (?ts ! i) (showPredictions_list two_tickets (Fin 2) ! i)"
    using both unfolding p(2) pre(3) by simp
  have r0: "record_of_ticket two_tickets (envelope_pred two_tickets) (JArr [JNum (Fin 1)])
               (?ts ! 0) (showPredictions_list two_tickets (Fin 2) ! 0)"
    and r1: "record_of_ticket two_tickets (envelope_pred two_tickets) (JArr [JNum (Fin 1)])
               (?ts ! 1) (showPredictions_list two_tickets (Fin 2) ! 1)"
    using r [rule_format, of 0] r [rule_format, of 1] by simp_all
  have m: "map_of (own_props (showPredictions_list two_tickets (Fin 2) ! 1)) ''meta''
             = map_of (own_props two_tickets) ''meta''"
    using r1 by (simp add: record_of_ticket_def)
  have obj: "\<exists>kvs. showPredictions_list two_tickets (Fin 2) ! 1 = JObj kvs"
    by (simp add: showPredictions_list_def two_tickets_def Let_def js_or_def slice0_def
        explode_record_def)
  then obtain kvs where k: "showPredictions_list two_tickets (Fin 2) ! 1 = JObj kvs" by blast
  have meta: "get_prop (showPredictions_list two_tickets (Fin 2) ! 1) ''meta''
       = JObj [(''model'', JStr ''logic'')]"
    using m unfolding k by (simp add: two_tickets_def)
  have np: "envelope_pred numbers_only = JObj [(''numbers'', JArr [JNum (Fin 7)])]"
    by (simp add: envelope_pred_def envelope_json_def numbers_only_def js_or_def)
  have N: "\<not> isArray numbers_only \<and> 1 \<le> (3::nat)" by (simp add: numbers_only_def)
  have NT: "get_prop (envelope_pred numbers_only) ''tickets'' = JArr []
          \<or> \<not> isArray (get_prop (envelope_pred numbers_only) ''tickets'')"
    by (simp add: np)
  from showPredictions_records [of numbers_only 3 "[]"] N NT
  have single: "length (showPredictions_list numbers_only (Fin (of_nat 3))) = 1
        \<and> record_of_ticket (envelope_json numbers_only) (envelope_pred numbers_only)
             (carried_fixed (envelope_pred numbers_only))
             (js_or (get_prop (envelope_pred numbers_only) ''numbers'') (JArr []))
             (showPredictions_list numbers_only (Fin (of_nat 3)) ! 0)"
    by blast
  have c: "length (showPredictions_list numbers_only (Fin 3)) = 1" using single by simp
  have d: "get_prop (get_prop (showPredictions_list numbers_only (Fin 3) ! 0) ''prediction'') ''numbers''
       = JArr [JNum (Fin 7)]"
    using single by (simp add: record_of_ticket_def np js_or_def)
  show ?thesis using a b r0 r1 meta c d by (simp add: record_of_ticket_def)
qed

text \<open>
  C1 as stated carries \<open>prediction.fixed_numbers\<close> through unchanged. An envelope
  with \<open>fixed_numbers: null\<close> gives records with \<open>fixed_numbers: []\<close>.
\<close>

theorem showPredictions_fixed_null_counterexample:
  "get_prop (get_prop two_tickets_null_fixed ''prediction'') ''fixed_numbers'' = JNull
   \<and> get_prop (get_prop (showPredictions_list two_tickets_null_fixed (Fin 2) ! 0) ''prediction'')
       ''fixed_numbers'' = JArr []"
  by (simp add: showPredictions_list_def two_tickets_null_fixed_def Let_def js_or_def slice0_def
      explode_record_def)

end
